theory Spec2Isabelle
  imports Complex_Main "HOL-Library.Sublist"
begin

section \<open>PDFLingo: the page translation pipeline of \<open>App.tsx\<close>\<close>

text \<open>
  The development embeds \<open>getFont\<close> and the per-page body of \<open>handleTranslate\<close>
  (\<open>src/App.tsx\<close>). Conventions of the embedding:
  \<^item> a JavaScript string is a \<open>string\<close>, a list of code units below 256;
  \<^item> a JavaScript number is a \<open>real\<close> (exact arithmetic, no rounding, no NaN), a pixel
    coordinate and a colour channel of the canvas an \<open>int\<close>;
  \<^item> the collaborators that live outside \<open>App.tsx\<close> (the two translation services,
    \<open>redactText\<close>, and \<open>widthOfTextAtSize\<close> and \<open>drawText\<close> of pdf-lib, which throw on a
    text their font cannot encode) are parameters, gathered in the record \<open>env\<close>;
  \<^item> an exception thrown by a translation service, or by pdf-lib when it measures or
    draws a text, is the \<open>Inl\<close> of a sum type;
  \<^item> the calls \<open>newPage.drawRectangle\<close> and \<open>newPage.drawText\<close> are recorded, in call
    order, as a list of \<open>DrawOp\<close>.
\<close>

subsection \<open>Strings\<close>

text \<open>\<open>String.prototype.toLowerCase\<close> on code units below 256: A-Z and the Latin-1
  capitals (U+00C0-U+00DE without the multiplication sign) move up by 32.\<close>

definition toLowerChar :: "char \<Rightarrow> char" where
  "toLowerChar c =
     (let n = (of_char c :: nat)
      in if (65 \<le> n \<and> n \<le> 90) \<or> (192 \<le> n \<and> n \<le> 222 \<and> n \<noteq> 215)
         then char_of (n + 32) else c)"

definition toLowerCase :: "string \<Rightarrow> string" where
  "toLowerCase s = map toLowerChar s"

text \<open>\<open>haystack.includes(needle)\<close>: the needle occurs at some position of the haystack.\<close>

fun str_includes :: "string \<Rightarrow> string \<Rightarrow> bool" where
  "str_includes [] n = (n = [])"
| "str_includes (c # cs) n = (prefix n (c # cs) \<or> str_includes cs n)"

text \<open>White space and line terminators of \<open>String.prototype.trim\<close> below 256:
  TAB, LF, VT, FF, CR, SP and NBSP.\<close>

definition isWhiteSpace :: "char \<Rightarrow> bool" where
  "isWhiteSpace c = ((of_char c :: nat) \<in> {9, 10, 11, 12, 13, 32, 160})"

definition trim :: "string \<Rightarrow> string" where
  "trim s = rev (dropWhile isWhiteSpace (rev (dropWhile isWhiteSpace s)))"

text \<open>The batch separator of the page loop.\<close>

definition sentinel :: string where
  "sentinel = '' ||| ''"

text \<open>\<open>Array.prototype.join(sep)\<close> on an array of strings.\<close>

fun arr_join :: "string list \<Rightarrow> string \<Rightarrow> string" where
  "arr_join [] sep = []"
| "arr_join [t] sep = t"
| "arr_join (t # u # ts) sep = t @ sep @ arr_join (u # ts) sep"

text \<open>\<open>String.prototype.split(sep)\<close> with a string separator and no limit: the pieces
  between the successive leftmost occurrences of \<open>sep\<close>, each search resuming right after
  the previous occurrence. \<open>cur\<close> holds the piece being read. An empty separator splits
  into single code units (and the empty string into no piece at all).\<close>

fun split_from :: "string \<Rightarrow> string \<Rightarrow> string \<Rightarrow> string list" where
  "split_from sep cur [] = [cur]"
| "split_from sep cur (c # cs) =
     (if prefix sep (c # cs)
      then cur # split_from sep [] (drop (length sep - 1) cs)
      else split_from sep (cur @ [c]) cs)"

definition str_split :: "string \<Rightarrow> string \<Rightarrow> string list" where
  "str_split s sep = (if sep = [] then map (\<lambda>c. [c]) s else split_from sep [] s)"

subsection \<open>Fonts\<close>

text \<open>The enumeration \<open>StandardFonts\<close> of pdf-lib.\<close>

datatype StandardFonts =
    Courier | CourierBold | CourierOblique | CourierBoldOblique
  | Helvetica | HelveticaBold | HelveticaOblique | HelveticaBoldOblique
  | TimesRoman | TimesRomanBold | TimesRomanItalic | TimesRomanBoldItalic
  | Symbol | ZapfDingbats

definition getFont :: "string \<Rightarrow> StandardFonts" where
  "getFont fontName =
     (let lower = toLowerCase fontName;
          isBold = str_includes lower ''bold'';
          isItalic = (str_includes lower ''italic'' \<or> str_includes lower ''oblique'');
          baseFont = (if str_includes lower ''times'' then TimesRoman
                      else if str_includes lower ''courier'' then Courier
                      else Helvetica)
      in if isBold \<and> isItalic then
           (if baseFont = TimesRoman then TimesRomanBoldItalic
            else if baseFont = Courier then CourierBoldOblique
            else HelveticaBoldOblique)
         else if isBold then
           (if baseFont = TimesRoman then TimesRomanBold
            else if baseFont = Courier then CourierBold
            else HelveticaBold)
         else if isItalic then
           (if baseFont = TimesRoman then TimesRomanItalic
            else if baseFont = Courier then CourierOblique
            else HelveticaOblique)
         else baseFont)"

text \<open>The specification's vocabulary: a font variant is a family and a style. The
  standard fonts \<open>Symbol\<close> and \<open>ZapfDingbats\<close> are no variant.\<close>

datatype Family = Serif | SansSerif | Monospace

datatype Style = Regular | Bold | Italic | BoldItalic

fun variantOf :: "StandardFonts \<Rightarrow> (Family \<times> Style) option" where
  "variantOf TimesRoman = Some (Serif, Regular)"
| "variantOf TimesRomanBold = Some (Serif, Bold)"
| "variantOf TimesRomanItalic = Some (Serif, Italic)"
| "variantOf TimesRomanBoldItalic = Some (Serif, BoldItalic)"
| "variantOf Helvetica = Some (SansSerif, Regular)"
| "variantOf HelveticaBold = Some (SansSerif, Bold)"
| "variantOf HelveticaOblique = Some (SansSerif, Italic)"
| "variantOf HelveticaBoldOblique = Some (SansSerif, BoldItalic)"
| "variantOf Courier = Some (Monospace, Regular)"
| "variantOf CourierBold = Some (Monospace, Bold)"
| "variantOf CourierOblique = Some (Monospace, Italic)"
| "variantOf CourierBoldOblique = Some (Monospace, BoldItalic)"
| "variantOf Symbol = None"
| "variantOf ZapfDingbats = None"

text \<open>The specification's reading of "the name contains the keyword, whatever the case":
  some contiguous part of the name is the keyword once put in lower case.\<close>

definition containsCI :: "string \<Rightarrow> string \<Rightarrow> bool" where
  "containsCI name kw = (\<exists>part. sublist part name \<and> toLowerCase part = kw)"

definition specFamily :: "string \<Rightarrow> Family" where
  "specFamily name =
     (if containsCI name ''times'' then Serif
      else if containsCI name ''courier'' then Monospace
      else SansSerif)"

definition specStyle :: "string \<Rightarrow> Style" where
  "specStyle name =
     (let bold = containsCI name ''bold'';
          italic = (containsCI name ''italic'' \<or> containsCI name ''oblique'')
      in if bold \<and> italic then BoldItalic
         else if bold then Bold
         else if italic then Italic
         else Regular)"

subsection \<open>Colours, the rendered canvas and text items\<close>

text \<open>A pdf-lib colour, made by \<open>rgb(r, g, b)\<close> with components between 0 and 1.\<close>

record Color =
  red :: real
  green :: real
  blue :: real

definition rgb :: "real \<Rightarrow> real \<Rightarrow> real \<Rightarrow> Color" where
  "rgb r g b = \<lparr>red = r, green = g, blue = b\<rparr>"

text \<open>The canvas after \<open>pdfjsPage.render\<close>: its size and the red, green and blue
  channels (0 to 255) of every pixel.\<close>

record canvas =
  cwidth :: int
  cheight :: int
  pixel :: "int \<Rightarrow> int \<Rightarrow> int \<times> int \<times> int"

text \<open>\<open>canvasContext.getImageData(x, y, 1, 1).data\<close>, first three channels. The canvas
  API does not fail outside the canvas: it answers transparent black there.\<close>

definition inBounds :: "canvas \<Rightarrow> int \<times> int \<Rightarrow> bool" where
  "inBounds cv p = (0 \<le> fst p \<and> fst p < cwidth cv \<and> 0 \<le> snd p \<and> snd p < cheight cv)"

definition getImageData :: "canvas \<Rightarrow> int \<times> int \<Rightarrow> int \<times> int \<times> int" where
  "getImageData cv p = (if inBounds cv p then pixel cv (fst p) (snd p) else (0, 0, 0))"

text \<open>A six-element affine matrix \<open>[a, b, c, d, e, f]\<close> and the product
  \<open>Util.transform(m1, m2)\<close> of pdf.js.\<close>

type_synonym matrix = "real \<times> real \<times> real \<times> real \<times> real \<times> real"

fun util_transform :: "matrix \<Rightarrow> matrix \<Rightarrow> matrix" where
  "util_transform (a1, b1, c1, d1, e1, f1) (a2, b2, c2, d2, e2, f2) =
     (a1 * a2 + c1 * b2, b1 * a2 + d1 * b2,
      a1 * c2 + c1 * d2, b1 * c2 + d1 * d2,
      a1 * e2 + c1 * f2 + e1, b1 * e2 + d1 * f2 + f1)"

text \<open>\<open>m[4]\<close> and \<open>m[5]\<close>.\<close>

fun at4 :: "matrix \<Rightarrow> real" where
  "at4 (a, b, c, d, e, f) = e"

fun at5 :: "matrix \<Rightarrow> real" where
  "at5 (a, b, c, d, e, f) = f"

record viewport =
  vscale :: real
  vtransform :: matrix

text \<open>The entries of \<open>textContent.items\<close>: a text item (the fields the page loop reads)
  or a marked-content item, which has no \<open>str\<close>.\<close>

record text_item =
  str :: string
  transform :: matrix
  width :: real
  height :: real
  fontName :: string

datatype item = TextItem text_item | TextMarkedContent

subsection \<open>Colour sampling (lines 158 to 203)\<close>

definition bgSamplePoint :: "canvas \<Rightarrow> viewport \<Rightarrow> text_item \<Rightarrow> int \<times> int" where
  "bgSamplePoint cv vp it =
     (let tx = util_transform (vtransform vp) (transform it);
          canvasX = at4 tx;
          canvasY = at5 tx;
          canvasHeight = height it * vscale vp;
          bgSampleX = max 0 \<lfloor>canvasX - 5\<rfloor>;
          bgSampleY = max 0 (min (cheight cv - 1) \<lfloor>canvasY - canvasHeight * 0.5\<rfloor>)
      in (bgSampleX, bgSampleY))"

definition backgroundSample :: "canvas \<Rightarrow> viewport \<Rightarrow> text_item \<Rightarrow> int \<times> int \<times> int" where
  "backgroundSample cv vp it = getImageData cv (bgSamplePoint cv vp it)"

definition samplePoints :: "viewport \<Rightarrow> text_item \<Rightarrow> (real \<times> real) list" where
  "samplePoints vp it =
     (let tx = util_transform (vtransform vp) (transform it);
          canvasX = at4 tx;
          canvasY = at5 tx;
          canvasWidth = width it * vscale vp;
          canvasHeight = height it * vscale vp
      in [(canvasX + canvasWidth * 0.5, canvasY - canvasHeight * 0.5),
          (canvasX + canvasWidth * 0.25, canvasY - canvasHeight * 0.25),
          (canvasX + canvasWidth * 0.75, canvasY - canvasHeight * 0.75)])"

definition clampPoint :: "canvas \<Rightarrow> real \<times> real \<Rightarrow> int \<times> int" where
  "clampPoint cv point =
     (max 0 (min (cwidth cv - 1) \<lfloor>fst point\<rfloor>),
      max 0 (min (cheight cv - 1) \<lfloor>snd point\<rfloor>))"

definition candidateSample :: "canvas \<Rightarrow> real \<times> real \<Rightarrow> int \<times> int \<times> int" where
  "candidateSample cv point = getImageData cv (clampPoint cv point)"

fun colorDiff :: "int \<times> int \<times> int \<Rightarrow> int \<times> int \<times> int \<Rightarrow> real" where
  "colorDiff (r, g, b) (bgR, bgG, bgB) =
     sqrt (real_of_int ((r - bgR)\<^sup>2 + (g - bgG)\<^sup>2 + (b - bgB)\<^sup>2))"

fun toColor :: "int \<times> int \<times> int \<Rightarrow> Color" where
  "toColor (r, g, b) = rgb (real_of_int r / 255) (real_of_int g / 255) (real_of_int b / 255)"

text \<open>The loop over the sample points, left at the first point whose colour differs
  enough from the background (\<open>colorFound\<close> is \<open>Some\<close>).\<close>

fun findColor :: "canvas \<Rightarrow> int \<times> int \<times> int \<Rightarrow> (real \<times> real) list \<Rightarrow> Color option" where
  "findColor cv bg [] = None"
| "findColor cv bg (point # points) =
     (if colorDiff (candidateSample cv point) bg > 50
      then Some (toColor (candidateSample cv point))
      else findColor cv bg points)"

fun luminance :: "int \<times> int \<times> int \<Rightarrow> real" where
  "luminance (bgR, bgG, bgB) = real_of_int (bgR + bgG + bgB) / 3"

definition sampleColor :: "canvas \<Rightarrow> viewport \<Rightarrow> text_item \<Rightarrow> Color" where
  "sampleColor cv vp it =
     (let bg = backgroundSample cv vp it
      in case findColor cv bg (samplePoints vp it) of
           Some finalColor \<Rightarrow> finalColor
         | None \<Rightarrow> if luminance bg < 128 then rgb 1 1 1 else rgb 0 0 0)"

text \<open>An entry of \<open>itemsWithStyle\<close>: the item as it was, or a text item with its colour.\<close>

datatype styled_item = Unstyled item | Styled text_item Color

fun styleItem :: "canvas \<Rightarrow> viewport \<Rightarrow> item \<Rightarrow> styled_item" where
  "styleItem cv vp TextMarkedContent = Unstyled TextMarkedContent"
| "styleItem cv vp (TextItem it) =
     (if length (trim (str it)) = 0 then Unstyled (TextItem it)
      else Styled it (sampleColor cv vp it))"

text \<open>\<open>'str' in item ? item.str : ''\<close>\<close>

fun strOf :: "styled_item \<Rightarrow> string" where
  "strOf (Unstyled TextMarkedContent) = []"
| "strOf (Unstyled (TextItem it)) = str it"
| "strOf (Styled it c) = str it"

subsection \<open>Fitting and drawing (lines 225 to 273)\<close>

text \<open>Lines 249 to 261: the size of the translated text, from the height and width of
  the original item and the width of the translated text at the original size.\<close>

definition fitSize :: "real \<Rightarrow> real \<Rightarrow> real \<Rightarrow> real" where
  "fitSize originalSize originalWidth textWidth =
     (let newSize = (if textWidth > originalWidth \<and> originalWidth > 0
                     then originalSize * (originalWidth / textWidth) * 0.95
                     else originalSize)
      in max newSize 4)"

text \<open>\<open>EraseRect x y w h c\<close> is a call \<open>newPage.drawRectangle({x, y, width, height, color})\<close>,
  \<open>PaintText s x y font size c\<close> a call \<open>newPage.drawText(s, {x, y, font, size, color})\<close>.\<close>

datatype DrawOp =
    EraseRect real real real real Color
  | PaintText string real real StandardFonts real Color

text \<open>How a page fails: with the message of an exception thrown by the translation
  service, or by pdf-lib while it measures or draws a text (the font's encoding has no
  code for one of its characters), both caught at line 281. \<open>BatchMismatch\<close> is the
  failure the specification names for a wrong count of segments.\<close>

datatype error = ProviderError string | DrawError string | BatchMismatch

datatype TranslationService = Gemini | Ollama

text \<open>What the page loop is given from outside \<open>App.tsx\<close>.\<close>

record env =
  translateWithGemini :: "string \<Rightarrow> string \<Rightarrow> string + string"
  translateWithOllama :: "string \<Rightarrow> string \<Rightarrow> string \<Rightarrow> string + string"
  redactText :: "string \<Rightarrow> string"
  widthOfTextAtSize :: "StandardFonts \<Rightarrow> string \<Rightarrow> real \<Rightarrow> string + real"
  drawText :: "string \<Rightarrow> StandardFonts \<Rightarrow> real \<Rightarrow> string + unit"

text \<open>The component state the callback closes over.\<close>

record settings =
  targetLanguage :: string
  translationService :: TranslationService
  ollamaUrl :: string
  anonymize :: bool

text \<open>What the drawing loop changes: the operations drawn on the page so far, the keys
  of the cache \<open>embeddedFonts\<close> and \<open>currentTranslatedIndex\<close>.\<close>

record draw_state =
  ops :: "DrawOp list"
  embeddedFonts :: "StandardFonts list"
  currentTranslatedIndex :: nat

text \<open>One turn of the loop of line 227. The rectangle is drawn before the text is
  measured, so a throw of \<open>widthOfTextAtSize\<close> (line 253) or of \<open>drawText\<close> (line 263)
  comes after it; the throw leaves the loop and the page.\<close>

fun drawItem ::
  "env \<Rightarrow> string list \<Rightarrow> draw_state \<Rightarrow> styled_item \<Rightarrow> error + draw_state" where
  "drawItem ev translatedTexts st (Unstyled i) = Inr st"
| "drawItem ev translatedTexts st (Styled it color) =
     (if length (trim (str it)) > 0 then
        (let x = at4 (transform it);
             y = at5 (transform it);
             st1 = st\<lparr>ops := ops st @
                     [EraseRect x (y - height it * 0.25) (width it + 1) (height it * 1.25)
                        (rgb 1 1 1)]\<rparr>
         in if currentTranslatedIndex st1 < length translatedTexts then
              (let translatedText = translatedTexts ! currentTranslatedIndex st1;
                   fontType = getFont (fontName it);
                   fonts = (if fontType \<in> set (embeddedFonts st1) then embeddedFonts st1
                            else embeddedFonts st1 @ [fontType]);
                   originalSize = height it;
                   originalWidth = width it
               in case widthOfTextAtSize ev fontType translatedText originalSize of
                    Inl message \<Rightarrow> Inl (DrawError message)
                  | Inr textWidth \<Rightarrow>
                      (let newSize = fitSize originalSize originalWidth textWidth
                       in case drawText ev translatedText fontType newSize of
                            Inl message \<Rightarrow> Inl (DrawError message)
                          | Inr ok \<Rightarrow>
                              Inr (st1\<lparr>ops := ops st1 @
                                           [PaintText translatedText x y fontType newSize color],
                                        embeddedFonts := fonts,
                                        currentTranslatedIndex :=
                                          currentTranslatedIndex st1 + 1\<rparr>)))
            else Inr st1)
      else Inr st)"

fun drawLoop ::
  "env \<Rightarrow> string list \<Rightarrow> draw_state \<Rightarrow> styled_item list \<Rightarrow> error + draw_state" where
  "drawLoop ev translatedTexts st [] = Inr st"
| "drawLoop ev translatedTexts st (item # items) =
     (case drawItem ev translatedTexts st item of
        Inl e \<Rightarrow> Inl e
      | Inr st1 \<Rightarrow> drawLoop ev translatedTexts st1 items)"

subsection \<open>One page of \<open>handleTranslate\<close> (lines 143 to 273)\<close>

text \<open>The outcome of a page that did not throw: the operations drawn on it, the font
  cache after it, and the batches sent to the translation service. A page that throws
  takes the whole document to the handler of line 281, and nothing it drew is kept.\<close>

record page_result =
  pageOps :: "DrawOp list"
  pageFonts :: "StandardFonts list"
  providerCalls :: "string list"

definition translateBatch :: "env \<Rightarrow> settings \<Rightarrow> string \<Rightarrow> error + string" where
  "translateBatch ev cfg textToTranslate =
     (case (if translationService cfg = Gemini
            then translateWithGemini ev textToTranslate (targetLanguage cfg)
            else translateWithOllama ev textToTranslate (targetLanguage cfg) (ollamaUrl cfg)) of
        Inl message \<Rightarrow> Inl (ProviderError message)
      | Inr translatedFullText \<Rightarrow> Inr translatedFullText)"

definition originalTextsOf :: "styled_item list \<Rightarrow> string list" where
  "originalTextsOf itemsWithStyle =
     filter (\<lambda>s. length (trim s) > 0) (map strOf itemsWithStyle)"

definition textToTranslateOf :: "env \<Rightarrow> settings \<Rightarrow> string list \<Rightarrow> string" where
  "textToTranslateOf ev cfg originalTexts =
     (let textsToProcess = (if anonymize cfg then map (redactText ev) originalTexts
                            else originalTexts)
      in arr_join textsToProcess sentinel)"

text \<open>\<open>ctx\<close> is the result of \<open>canvas.getContext('2d')\<close>, \<open>None\<close> for \<open>null\<close>; \<open>fonts\<close> is
  the font cache before the page. A page left by \<open>continue\<close> has drawn nothing. The page
  arrives with its items extracted and its canvas rendered: what pdf.js does before
  line 158 is not part of the embedding.\<close>

definition handlePage ::
  "env \<Rightarrow> settings \<Rightarrow> canvas option \<Rightarrow> viewport \<Rightarrow> item list \<Rightarrow> StandardFonts list
   \<Rightarrow> error + page_result" where
  "handlePage ev cfg ctx vp items fonts =
     (if length items = 0
      then Inr \<lparr>pageOps = [], pageFonts = fonts, providerCalls = []\<rparr>
      else case ctx of
        None \<Rightarrow> Inr \<lparr>pageOps = [], pageFonts = fonts, providerCalls = []\<rparr>
      | Some cv \<Rightarrow>
          (let itemsWithStyle = map (styleItem cv vp) items;
               originalTexts = originalTextsOf itemsWithStyle
           in if length originalTexts = 0
              then Inr \<lparr>pageOps = [], pageFonts = fonts, providerCalls = []\<rparr>
              else
                (let textToTranslate = textToTranslateOf ev cfg originalTexts
                 in case translateBatch ev cfg textToTranslate of
                      Inl e \<Rightarrow> Inl e
                    | Inr translatedFullText \<Rightarrow>
                        (let translatedTexts = str_split translatedFullText sentinel
                         in case drawLoop ev translatedTexts
                                   \<lparr>ops = [], embeddedFonts = fonts,
                                    currentTranslatedIndex = 0\<rparr>
                                   itemsWithStyle of
                              Inl e \<Rightarrow> Inl e
                            | Inr st \<Rightarrow>
                                Inr \<lparr>pageOps = ops st, pageFonts = embeddedFonts st,
                                     providerCalls = [textToTranslate]\<rparr>))))"

subsection \<open>Vocabulary of the specification\<close>

text \<open>The runs that survive the empty-text filter, in page order.\<close>

fun survivingRuns :: "item list \<Rightarrow> text_item list" where
  "survivingRuns [] = []"
| "survivingRuns (TextMarkedContent # items) = survivingRuns items"
| "survivingRuns (TextItem it # items) =
     (if trim (str it) = [] then survivingRuns items else it # survivingRuns items)"

text \<open>A run whose trimmed text is empty.\<close>

fun emptyRun :: "item \<Rightarrow> bool" where
  "emptyRun TextMarkedContent = False"
| "emptyRun (TextItem it) = (trim (str it) = [])"

text \<open>The erase rectangle and the painted text the specification describes for a run:
  the box widened by 1, 1.25 times as high and lowered by a quarter of the height, in
  white; the translated text at the baseline origin, in the resolved font, at the
  fitted size, in the sampled colour. The fitted size is computed from the width that
  \<open>widthOfTextAtSize\<close> returns.\<close>

definition eraseFor :: "text_item \<Rightarrow> DrawOp" where
  "eraseFor it =
     EraseRect (at4 (transform it)) (at5 (transform it) - 0.25 * height it)
       (width it + 1) (height it * 1.25) \<lparr>red = 1, green = 1, blue = 1\<rparr>"

definition paintFor :: "env \<Rightarrow> canvas \<Rightarrow> viewport \<Rightarrow> text_item \<Rightarrow> string \<Rightarrow> DrawOp" where
  "paintFor ev cv vp it s =
     PaintText s (at4 (transform it)) (at5 (transform it)) (getFont (fontName it))
       (fitSize (height it) (width it)
          (projr (widthOfTextAtSize ev (getFont (fontName it)) s (height it))))
       (sampleColor cv vp it)"

text \<open>A translated text can be painted on a run when pdf-lib measures it in the run's
  font at the run's height and then draws it at the fitted size, without throwing.\<close>

definition paintable :: "env \<Rightarrow> text_item \<Rightarrow> string \<Rightarrow> bool" where
  "paintable ev it s =
     (case widthOfTextAtSize ev (getFont (fontName it)) s (height it) of
        Inl message \<Rightarrow> False
      | Inr textWidth \<Rightarrow>
          (case drawText ev s (getFont (fontName it))
                  (fitSize (height it) (width it) textWidth) of
             Inl message \<Rightarrow> False
           | Inr ok \<Rightarrow> True))"

text \<open>Runs and translated texts paired in order; a run left without a text is erased
  and not painted.\<close>

fun pairedOps :: "env \<Rightarrow> canvas \<Rightarrow> viewport \<Rightarrow> text_item list \<Rightarrow> string list \<Rightarrow> DrawOp list" where
  "pairedOps ev cv vp [] texts = []"
| "pairedOps ev cv vp (it # its) [] = eraseFor it # pairedOps ev cv vp its []"
| "pairedOps ev cv vp (it # its) (s # ss) =
     eraseFor it # paintFor ev cv vp it s # pairedOps ev cv vp its ss"

subsection \<open>Example inputs\<close>

text \<open>A US Letter page (612 by 792 points) rendered at scale 3 on a white canvas.\<close>

definition cvLetter :: canvas where
  "cvLetter = \<lparr>cwidth = 1836, cheight = 2376, pixel = (\<lambda>x y. (255, 255, 255))\<rparr>"

definition vpLetter :: viewport where
  "vpLetter = \<lparr>vscale = 3, vtransform = (3, 0, 0, -3, 0, 2376)\<rparr>"

text \<open>A text item placed to the right of the page box, at x = 700.\<close>

definition runOffPage :: text_item where
  "runOffPage = \<lparr>str = ''margin note'', transform = (12, 0, 0, 12, 700, 700),
                  width = 60, height = 12, fontName = ''Arial''\<rparr>"



text \<open>Five lines of text, a blank item and a marked-content item.\<close>

definition run1 :: text_item where
  "run1 = \<lparr>str = ''Hello'', transform = (12, 0, 0, 12, 72, 700),
            width = 30, height = 12, fontName = ''Helvetica-Bold''\<rparr>"

definition run2 :: text_item where
  "run2 = \<lparr>str = ''World'', transform = (12, 0, 0, 12, 72, 680),
            width = 30, height = 12, fontName = ''Arial''\<rparr>"

definition run3 :: text_item where
  "run3 = \<lparr>str = ''Good'', transform = (12, 0, 0, 12, 72, 660),
            width = 30, height = 12, fontName = ''Arial''\<rparr>"

definition run4 :: text_item where
  "run4 = \<lparr>str = ''Morning'', transform = (12, 0, 0, 12, 72, 640),
            width = 30, height = 12, fontName = ''Arial''\<rparr>"

definition run5 :: text_item where
  "run5 = \<lparr>str = ''Friends'', transform = (12, 0, 0, 12, 72, 620),
            width = 30, height = 12, fontName = ''Arial''\<rparr>"

definition blankRun :: text_item where
  "blankRun = \<lparr>str = ''  '', transform = (12, 0, 0, 12, 72, 690),
                width = 6, height = 12, fontName = ''Arial''\<rparr>"

definition pageOfTwo :: "item list" where
  "pageOfTwo = [TextItem run1, TextMarkedContent, TextItem blankRun, TextItem run2]"

definition pageOfFive :: "item list" where
  "pageOfFive = [TextItem run1, TextItem run2, TextItem run3, TextItem run4, TextItem run5]"

text \<open>Collaborators for the examples: both translation services answer \<open>response\<close>
  whatever they are sent and nothing is redacted. As with the WinAnsi encoding of the
  standard fonts, a text that holds a control character (a code unit below 32, such as
  a line feed) cannot be measured: \<open>widthOfTextAtSize\<close> throws. Otherwise every glyph
  is half as wide as the font size, and a text that has been measured is drawn.\<close>

definition envAnswering :: "string \<Rightarrow> env" where
  "envAnswering response =
     \<lparr>translateWithGemini = (\<lambda>batch lang. Inr response),
      translateWithOllama = (\<lambda>batch lang url. Inr response),
      redactText = (\<lambda>s. s),
      widthOfTextAtSize = (\<lambda>font s size.
         if list_ex (\<lambda>c. (of_char c :: nat) < 32) s
         then Inl ''WinAnsi cannot encode''
         else Inr (size * real (length s) / 2)),
      drawText = (\<lambda>s font size. Inr ())\<rparr>"

definition pageOfOne :: "item list" where
  "pageOfOne = [TextItem run1]"

text \<open>An answer with a line feed in its first segment, alone and followed by a second
  segment.\<close>

definition answerWithLineFeed :: string where
  "answerWithLineFeed = ''buenos'' @ [CHR 0x0A] @ ''dias''"

definition answerWithLineFeedAndMore :: string where
  "answerWithLineFeedAndMore = ''buenos'' @ [CHR 0x0A] @ ''dias ||| mundo''"

definition cfgSpanish :: settings where
  "cfgSpanish = \<lparr>targetLanguage = ''Spanish'', translationService = Gemini,
                 ollamaUrl = ''http://localhost:11434/api/generate'', anonymize = False\<rparr>"

section \<open>Font resolution\<close>

lemma str_includes_sublist: "str_includes s n = sublist n s"
  by (induction s) (simp_all add: sublist_Cons_right)

lemma sublist_map_lower:
  "sublist kw (map f name) = (\<exists>part. sublist part name \<and> map f part = kw)"
proof
  assume "sublist kw (map f name)"
  then obtain ps ss where "map f name = ps @ kw @ ss"
    by (auto simp: sublist_def)
  then obtain us rest where a: "name = us @ rest" and r: "map f rest = kw @ ss"
    by (metis map_eq_append_conv)
  from r obtain vs ws where b: "rest = vs @ ws" and c: "map f vs = kw"
    by (metis map_eq_append_conv)
  from a b c have "name = us @ vs @ ws" and "map f vs = kw"
    by simp_all
  then show "\<exists>part. sublist part name \<and> map f part = kw"
    by (auto simp: sublist_def)
next
  assume "\<exists>part. sublist part name \<and> map f part = kw"
  then obtain part ps ss where "name = ps @ part @ ss" and "map f part = kw"
    by (auto simp: sublist_def)
  then have "map f name = map f ps @ kw @ map f ss"
    by simp
  then show "sublist kw (map f name)"
    unfolding sublist_def by blast
qed

lemma includes_lower_containsCI:
  "str_includes (toLowerCase name) kw = containsCI name kw"
  unfolding str_includes_sublist containsCI_def toLowerCase_def
  by (rule sublist_map_lower)

lemma lower_times_example:
  "toLowerCase ''TimesNewRomanPS-BoldItalicMT'' = ''timesnewromanps-bolditalicmt''"
  by code_simp

lemma lower_arial_example: "toLowerCase ''Arial'' = ''arial''"
  by code_simp

lemma lower_courier_example:
  "toLowerCase ''CourierNewPS-BoldMT'' = ''couriernewps-boldmt''"
  by code_simp

text \<open>
  Claim C4. Font resolution is a total function of the font name, case-insensitive and
  substring-based: the family is Serif when the name contains "times", otherwise
  Monospace when it contains "courier", otherwise SansSerif; the style is bold when the
  name contains "bold" and italic when it contains "italic" or "oblique"; the result is
  always one of the twelve family/style variants. "TimesNewRomanPS-BoldItalicMT"
  resolves to Serif/BoldItalic, "Arial" to SansSerif/Regular and "CourierNewPS-BoldMT"
  to Monospace/Bold.
\<close>

theorem getFont_resolves_variant:
  "variantOf (getFont name) = Some (specFamily name, specStyle name)
   \<and> variantOf (getFont ''TimesNewRomanPS-BoldItalicMT'') = Some (Serif, BoldItalic)
   \<and> variantOf (getFont ''Arial'') = Some (SansSerif, Regular)
   \<and> variantOf (getFont ''CourierNewPS-BoldMT'') = Some (Monospace, Bold)"
proof -
  have general: "variantOf (getFont name) = Some (specFamily name, specStyle name)"
    by (simp add: getFont_def specFamily_def specStyle_def Let_def
        includes_lower_containsCI)
  have times: "variantOf (getFont ''TimesNewRomanPS-BoldItalicMT'') = Some (Serif, BoldItalic)"
    by (simp add: getFont_def lower_times_example)
  have arial: "variantOf (getFont ''Arial'') = Some (SansSerif, Regular)"
    by (simp add: getFont_def lower_arial_example)
  have courier: "variantOf (getFont ''CourierNewPS-BoldMT'') = Some (Monospace, Bold)"
    by (simp add: getFont_def lower_courier_example)
  from general times arial courier show ?thesis by simp
qed


section \<open>Joining and splitting a batch\<close>

lemma split_from_skip:
  "\<forall>i<length t. \<not> prefix sep (drop i (t @ rest)) \<Longrightarrow>
   split_from sep cur (t @ rest) = split_from sep (cur @ t) rest"
proof (induction t arbitrary: cur)
  case Nil
  then show ?case by simp
next
  case (Cons c t)
  from Cons.prems have here: "\<not> prefix sep (c # t @ rest)"
    by force
  have later: "\<forall>i<length t. \<not> prefix sep (drop i (t @ rest))"
  proof (intro allI impI)
    fix i assume "i < length t"
    then have "Suc i < length (c # t)" by simp
    with Cons.prems have "\<not> prefix sep (drop (Suc i) ((c # t) @ rest))" by blast
    then show "\<not> prefix sep (drop i (t @ rest))" by simp
  qed
  from here Cons.IH [OF later, of "cur @ [c]"] show ?case by simp
qed

lemma split_from_sep:
  "sep \<noteq> [] \<Longrightarrow> split_from sep cur (sep @ rest) = cur # split_from sep [] rest"
  by (cases sep) simp_all

text \<open>An occurrence of the separator that starts inside a text followed by the
  separator either lies in the text or starts at its last four code units, which are
  then the separator without its final space.\<close>

lemma sentinel_overlap:
  assumes "d \<noteq> []" and "prefix sentinel (d @ sentinel @ J)"
  shows "prefix sentinel d \<or> d = '' |||''"
proof -
  from assms(2) consider "prefix sentinel d"
    | us where "sentinel = d @ us" and "prefix us (sentinel @ J)"
    by (auto simp: prefix_append)
  then show ?thesis
  proof cases
    case 1
    then show ?thesis by simp
  next
    case 2
    from 2(1) assms(1) 2(2) show ?thesis
      by (auto simp: sentinel_def Cons_eq_append_conv)
  qed
qed

lemma no_early_sentinel:
  assumes "\<not> str_includes t sentinel" and "\<not> suffix '' |||'' t"
  shows "\<forall>i<length t. \<not> prefix sentinel (drop i (t @ sentinel @ J))"
proof (intro allI impI notI)
  fix i assume i: "i < length t" and p: "prefix sentinel (drop i (t @ sentinel @ J))"
  let ?d = "drop i t"
  from i have "?d \<noteq> []" by simp
  moreover from i p have "prefix sentinel (?d @ sentinel @ J)" by simp
  ultimately have "prefix sentinel ?d \<or> ?d = '' |||''" by (rule sentinel_overlap)
  then show False
  proof
    assume "prefix sentinel ?d"
    then obtain zs where "?d = sentinel @ zs" by (auto simp: prefix_def)
    then have "t = take i t @ sentinel @ zs" by (metis append_take_drop_id)
    then have "sublist sentinel t" unfolding sublist_def by blast
    with assms(1) show False by (simp add: str_includes_sublist)
  next
    assume "?d = '' |||''"
    then have "suffix '' |||'' t" by (metis suffix_drop)
    with assms(2) show False by simp
  qed
qed

lemma split_from_last:
  assumes "\<not> str_includes t sep"
  shows "split_from sep cur t = [cur @ t]"
proof -
  have "\<forall>i<length t. \<not> prefix sep (drop i (t @ []))"
  proof (intro allI impI notI)
    fix i assume "i < length t" and "prefix sep (drop i (t @ []))"
    then obtain zs where "drop i t = sep @ zs" by (auto simp: prefix_def)
    then have "t = take i t @ sep @ zs" by (metis append_take_drop_id)
    then have "sublist sep t" unfolding sublist_def by blast
    with assms show False by (simp add: str_includes_sublist)
  qed
  from split_from_skip [OF this, of cur] show ?thesis by simp
qed

lemma arr_join_Cons:
  "ts \<noteq> [] \<Longrightarrow> arr_join (t # ts) sep = t @ sep @ arr_join ts sep"
  by (cases ts) simp_all

lemma split_from_join:
  assumes "texts \<noteq> []"
    and "\<forall>t\<in>set texts. \<not> str_includes t sentinel"
    and "\<forall>t\<in>set (butlast texts). \<not> suffix '' |||'' t"
  shows "split_from sentinel [] (arr_join texts sentinel) = texts"
  using assms
proof (induction texts rule: list_nonempty_induct)
  case (single t)
  then show ?case by (simp add: split_from_last)
next
  case (cons t ts)
  from cons.prems cons.hyps have t: "\<not> str_includes t sentinel" "\<not> suffix '' |||'' t"
    by simp_all
  from cons.prems cons.hyps have rest: "split_from sentinel [] (arr_join ts sentinel) = ts"
    by (intro cons.IH) simp_all
  have ne: "sentinel \<noteq> []" by (simp add: sentinel_def)
  have "split_from sentinel [] (arr_join (t # ts) sentinel)
      = split_from sentinel [] (t @ sentinel @ arr_join ts sentinel)"
    using cons.hyps by (simp add: arr_join_Cons)
  also have "\<dots> = split_from sentinel ([] @ t) (sentinel @ arr_join ts sentinel)"
    by (rule split_from_skip) (rule no_early_sentinel [OF t])
  also have "\<dots> = t # split_from sentinel [] (arr_join ts sentinel)"
    using ne by (simp add: split_from_sep)
  finally show ?case using rest by simp
qed

text \<open>
  Claim C8, as amended. For every non-empty sequence of strings in which no element
  contains the separator " ||| " and no element but the last ends with " |||" (the
  separator without its final space), splitting the joined batch on the separator
  gives back the sequence: same count, same elements, same order.
\<close>

theorem split_join_roundtrip:
  assumes "texts \<noteq> []"
    and "\<forall>t\<in>set texts. \<not> str_includes t sentinel"
    and "\<forall>t\<in>set (butlast texts). \<not> suffix '' |||'' t"
  shows "str_split (arr_join texts sentinel) sentinel = texts"
  using split_from_join [OF assms] by (simp add: str_split_def sentinel_def)

theorem split_join_roundtrip_witness:
  "[''Hello world'', ''||| x'', ''end |||''] \<noteq> []
   \<and> \<not> str_includes ''Hello world'' sentinel
   \<and> \<not> str_includes ''||| x'' sentinel
   \<and> \<not> str_includes ''end |||'' sentinel
   \<and> \<not> suffix '' |||'' ''Hello world''
   \<and> \<not> suffix '' |||'' ''||| x''
   \<and> str_split (arr_join [''Hello world'', ''||| x'', ''end |||''] sentinel) sentinel
       = [''Hello world'', ''||| x'', ''end |||'']"
proof -
  have a: "[''Hello world'', ''||| x'', ''end |||''] \<noteq> []" by simp
  have b: "\<forall>t\<in>set [''Hello world'', ''||| x'', ''end |||'']. \<not> str_includes t sentinel"
    by (simp add: sentinel_def)
  have c: "\<forall>t\<in>set (butlast [''Hello world'', ''||| x'', ''end |||'']). \<not> suffix '' |||'' t"
    by (simp add: suffix_Cons)
  from b c split_join_roundtrip [OF a b c] show ?thesis by simp
qed

text \<open>
  Claim C8 as stated fails: neither "a |||" nor "b" contains the separator, yet their
  join "a ||| ||| b" has its leftmost separator one code unit before the joint, and
  splits into "a" and "||| b".
\<close>

theorem split_join_roundtrip_counterexample:
  "[''a |||'', ''b''] \<noteq> []
   \<and> \<not> str_includes ''a |||'' sentinel \<and> \<not> str_includes ''b'' sentinel
   \<and> str_split (arr_join [''a |||'', ''b''] sentinel) sentinel = [''a'', ''||| b'']
   \<and> str_split (arr_join [''a |||'', ''b''] sentinel) sentinel \<noteq> [''a |||'', ''b'']"
  by (simp add: str_split_def sentinel_def)

section \<open>Colour sampling\<close>

lemma sqrt_gt_50: "50 < sqrt x \<longleftrightarrow> 2500 < x"
proof -
  have h: "sqrt 2500 = 50" by (rule real_sqrt_unique) simp_all
  show ?thesis by (metis h real_sqrt_less_iff)
qed

lemma colorDiff_gt_50:
  "colorDiff (r, g, b) (bgR, bgG, bgB) > 50
   \<longleftrightarrow> 2500 < (r - bgR)\<^sup>2 + (g - bgG)\<^sup>2 + (b - bgB)\<^sup>2"
proof -
  have "colorDiff (r, g, b) (bgR, bgG, bgB) > 50
     \<longleftrightarrow> 2500 < real_of_int ((r - bgR)\<^sup>2 + (g - bgG)\<^sup>2 + (b - bgB)\<^sup>2)"
    by (simp only: colorDiff.simps sqrt_gt_50)
  also have "\<dots> \<longleftrightarrow> 2500 < (r - bgR)\<^sup>2 + (g - bgG)\<^sup>2 + (b - bgB)\<^sup>2"
    by linarith
  finally show ?thesis .
qed

lemma clampPoint_inBounds:
  "0 < cwidth cv \<Longrightarrow> 0 < cheight cv \<Longrightarrow> inBounds cv (clampPoint cv point)"
  by (auto simp add: inBounds_def clampPoint_def min_def)

lemma findColor_first:
  "k < length points \<Longrightarrow>
   \<forall>j<k. colorDiff (candidateSample cv (points ! j)) bg \<le> 50 \<Longrightarrow>
   colorDiff (candidateSample cv (points ! k)) bg > 50 \<Longrightarrow>
   findColor cv bg points = Some (toColor (candidateSample cv (points ! k)))"
proof (induction points arbitrary: k)
  case Nil
  then show ?case by simp
next
  case (Cons p points)
  show ?case
  proof (cases k)
    case 0
    with Cons.prems show ?thesis by simp
  next
    case (Suc n)
    with Cons.prems have first: "colorDiff (candidateSample cv p) bg \<le> 50" by auto
    from Suc Cons.prems have n: "n < length points" by simp
    from Suc Cons.prems have before: "\<forall>j<n. colorDiff (candidateSample cv (points ! j)) bg \<le> 50"
      by auto
    from Suc Cons.prems have at: "colorDiff (candidateSample cv (points ! n)) bg > 50"
      by simp
    from first Cons.IH [OF n before at] Suc show ?thesis by simp
  qed
qed

lemma findColor_none:
  "\<forall>j<length points. colorDiff (candidateSample cv (points ! j)) bg \<le> 50 \<Longrightarrow>
   findColor cv bg points = None"
proof (induction points)
  case Nil
  then show ?case by simp
next
  case (Cons p points)
  from Cons.prems have "colorDiff (candidateSample cv p) bg \<le> 50" by auto
  moreover from Cons.prems
  have "\<forall>j<length points. colorDiff (candidateSample cv (points ! j)) bg \<le> 50" by auto
  ultimately show ?case using Cons.IH by simp
qed

lemma samplePoints_length: "length (samplePoints vp it) = 3"
  by (simp add: samplePoints_def Let_def)







lemma bgSamplePoint_lower_bounds:
  "0 \<le> fst (bgSamplePoint cv vp it) \<and> 0 \<le> snd (bgSamplePoint cv vp it)"
  by (simp add: bgSamplePoint_def Let_def)

lemma bgSamplePoint_y_upper:
  "0 < cheight cv \<Longrightarrow> snd (bgSamplePoint cv vp it) < cheight cv"
  by (simp add: bgSamplePoint_def Let_def)

lemma sampleColor_cvLetter:
  "sampleColor cvLetter vp it =
     (if inBounds cvLetter (bgSamplePoint cvLetter vp it) then rgb 0 0 0 else rgb 1 1 1)"
proof -
  have c: "candidateSample cvLetter point = (255, 255, 255)" for point
  proof -
    have "inBounds cvLetter (clampPoint cvLetter point)"
      by (rule clampPoint_inBounds) (simp_all add: cvLetter_def)
    then show ?thesis
      by (simp add: candidateSample_def getImageData_def) (simp add: cvLetter_def)
  qed
  show ?thesis
  proof (cases "inBounds cvLetter (bgSamplePoint cvLetter vp it)")
    case True
    then have "backgroundSample cvLetter vp it = (255, 255, 255)"
      by (simp add: backgroundSample_def getImageData_def) (simp add: cvLetter_def)
    with True show ?thesis
      by (simp add: sampleColor_def samplePoints_def Let_def c)
  next
    case False
    then have "backgroundSample cvLetter vp it = (0, 0, 0)"
      by (simp add: backgroundSample_def getImageData_def)
    with False show ?thesis
      by (simp add: sampleColor_def samplePoints_def Let_def c colorDiff_gt_50)
  qed
qed

text \<open>
  Claim C7 does not hold of the code. The three candidate points are clamped into the
  canvas on both sides (\<open>clampPoint_inBounds\<close>) and so is the row of the background
  point (\<open>bgSamplePoint_y_upper\<close>), but the column of the background point is only
  clamped from below: \<open>Math.max(0, Math.floor(canvasX - 5))\<close> has no
  \<open>Math.min(canvas.width - 1, ...)\<close>. For the item at x = 700 on a Letter page the
  background is read at column 2095 of a canvas 1836 wide; the read answers transparent
  black, and the white page is taken for a dark one.
\<close>

theorem bg_sample_beyond_canvas:
  "bgSamplePoint cvLetter vpLetter runOffPage = (2095, 258)
   \<and> cwidth cvLetter = 1836
   \<and> \<not> inBounds cvLetter (bgSamplePoint cvLetter vpLetter runOffPage)
   \<and> pixel cvLetter 1835 258 = (255, 255, 255)
   \<and> backgroundSample cvLetter vpLetter runOffPage = (0, 0, 0)
   \<and> sampleColor cvLetter vpLetter runOffPage = rgb 1 1 1"
proof -
  have p: "bgSamplePoint cvLetter vpLetter runOffPage = (2095, 258)"
    by (simp add: bgSamplePoint_def cvLetter_def vpLetter_def runOffPage_def Let_def)
  have b: "\<not> inBounds cvLetter (2095, 258)"
    by (simp add: inBounds_def cvLetter_def)
  have s: "backgroundSample cvLetter vpLetter runOffPage = (0, 0, 0)"
    using b by (simp add: backgroundSample_def p getImageData_def)
  have c: "sampleColor cvLetter vpLetter runOffPage = rgb 1 1 1"
    using b by (simp add: sampleColor_cvLetter p)
  have d: "cwidth cvLetter = 1836 \<and> pixel cvLetter 1835 258 = (255, 255, 255)"
    by (simp add: cvLetter_def)
  from p b s c d show ?thesis by simp
qed

section \<open>Fitting the translated text\<close>

text \<open>
  Claim C3. The fitted size starts at the original height H. If the width M measured
  at size H exceeds the original width W and W is positive, the size becomes
  H * (W / M) * 0.95; otherwise it stays H, so the size never grows; the result is then
  raised to the floor 4. W = 100, H = 12, M = 150 gives 7.6; W = 100, H = 12, M = 40
  gives 12; W = 100, H = 3 gives 4 whatever the measured width.
\<close>

theorem fitSize_rule:
  "(W < M \<and> 0 < W \<longrightarrow> fitSize H W M = max (H * (W / M) * 0.95) 4)
   \<and> (\<not> (W < M \<and> 0 < W) \<longrightarrow> fitSize H W M = max H 4)
   \<and> (0 \<le> H \<longrightarrow> fitSize H W M \<le> max H 4)
   \<and> fitSize 12 100 150 = 7.6
   \<and> fitSize 12 100 40 = 12
   \<and> fitSize 3 100 M = 4"
proof -
  have shrink: "W < M \<and> 0 < W \<longrightarrow> fitSize H W M = max (H * (W / M) * 0.95) 4"
    by (simp add: fitSize_def)
  have keep: "\<not> (W < M \<and> 0 < W) \<longrightarrow> fitSize H W M = max H 4"
    by (auto simp add: fitSize_def)
  have noup: "0 \<le> H \<longrightarrow> fitSize H W M \<le> max H 4"
  proof
    assume H: "0 \<le> H"
    show "fitSize H W M \<le> max H 4"
    proof (cases "W < M \<and> 0 < W")
      case True
      then have "W / M \<le> 1" by simp
      with H have "H * (W / M) \<le> H" by (rule mult_left_le [rotated])
      moreover from H True have "0 \<le> H * (W / M)" by simp
      ultimately have "H * (W / M) * 0.95 \<le> H" by simp
      with True show ?thesis by (simp add: fitSize_def)
    next
      case False
      then show ?thesis by (auto simp add: fitSize_def)
    qed
  qed
  have e1: "fitSize 12 100 150 = 7.6" by (simp add: fitSize_def)
  have e2: "fitSize 12 100 40 = 12" by (simp add: fitSize_def)
  have e3: "fitSize 3 100 M = 4"
  proof (cases "100 < M")
    case True
    then have "100 / M \<le> 1" by simp
    then have "3 * (100 / M) * 0.95 \<le> 4" by simp
    with True show ?thesis by (simp add: fitSize_def max_def)
  next
    case False
    then show ?thesis by (simp add: fitSize_def)
  qed
  from shrink keep noup e1 e2 e3 show ?thesis by blast
qed

theorem fitSize_rule_witness:
  "(100::real) < 150 \<and> (0::real) < 100 \<and> fitSize 12 100 150 = max (12 * (100 / 150) * 0.95) 4
   \<and> \<not> ((100::real) < 40 \<and> (0::real) < 100) \<and> fitSize 12 100 40 = max 12 4
   \<and> (0::real) \<le> 12 \<and> fitSize 12 100 150 \<le> max 12 4"
  using fitSize_rule [of 100 150 12] fitSize_rule [of 100 40 12] by simp

section \<open>The drawing loop and the page\<close>

lemma trim_Nil: "trim [] = []"
  by (simp add: trim_def)

lemma originalTexts_survivors:
  "originalTextsOf (map (styleItem cv vp) items) = map str (survivingRuns items)"
proof (induction items)
  case Nil
  then show ?case by (simp add: originalTextsOf_def)
next
  case (Cons i items)
  then show ?case
    by (cases i) (simp_all add: originalTextsOf_def trim_Nil)
qed

lemma drawItem_paired:
  assumes "trim (str it) \<noteq> []"
    and "currentTranslatedIndex st < length tr"
    and "paintable ev it (tr ! currentTranslatedIndex st)"
  shows "\<exists>st1. drawItem ev tr st (Styled it (sampleColor cv vp it)) = Inr st1
    \<and> ops st1 = ops st @ [eraseFor it, paintFor ev cv vp it (tr ! currentTranslatedIndex st)]
    \<and> currentTranslatedIndex st1 = Suc (currentTranslatedIndex st)"
  using assms
  by (auto simp add: paintable_def Let_def eraseFor_def paintFor_def rgb_def
      split: sum.splits)

lemma drawItem_unpaintable:
  assumes "trim (str it) \<noteq> []"
    and "currentTranslatedIndex st < length tr"
    and "\<not> paintable ev it (tr ! currentTranslatedIndex st)"
  shows "\<exists>m. drawItem ev tr st (Styled it c) = Inl (DrawError m)"
  using assms
  by (auto simp add: paintable_def Let_def split: sum.splits)

lemma drawItem_unpaired:
  assumes "trim (str it) \<noteq> []"
    and "\<not> currentTranslatedIndex st < length tr"
  shows "drawItem ev tr st (Styled it c) = Inr (st\<lparr>ops := ops st @ [eraseFor it]\<rparr>)"
  using assms by (simp add: Let_def eraseFor_def rgb_def)

lemma drawLoop_paintable:
  "list_all (\<lambda>(it, s). paintable ev it s)
     (zip (survivingRuns items) (drop (currentTranslatedIndex st) tr)) \<Longrightarrow>
   \<exists>st1. drawLoop ev tr st (map (styleItem cv vp) items) = Inr st1
     \<and> ops st1 = ops st @
         pairedOps ev cv vp (survivingRuns items) (drop (currentTranslatedIndex st) tr)"
proof (induction items arbitrary: st)
  case Nil
  then show ?case by simp
next
  case (Cons i items)
  show ?case
  proof (cases i)
    case TextMarkedContent
    with Cons show ?thesis by simp
  next
    case (TextItem it)
    show ?thesis
    proof (cases "trim (str it) = []")
      case True
      with TextItem Cons show ?thesis by simp
    next
      case False
      show ?thesis
      proof (cases "currentTranslatedIndex st < length tr")
        case True
        then have d: "drop (currentTranslatedIndex st) tr =
            tr ! currentTranslatedIndex st # drop (Suc (currentTranslatedIndex st)) tr"
          by (simp add: Cons_nth_drop_Suc)
        from Cons.prems TextItem False d
        have here: "paintable ev it (tr ! currentTranslatedIndex st)"
          and rest: "list_all (\<lambda>(it, s). paintable ev it s)
             (zip (survivingRuns items) (drop (Suc (currentTranslatedIndex st)) tr))"
          by simp_all
        from drawItem_paired [OF False True here, of cv vp]
        obtain st1 where s1: "drawItem ev tr st (Styled it (sampleColor cv vp it)) = Inr st1"
          and o1: "ops st1 = ops st @
              [eraseFor it, paintFor ev cv vp it (tr ! currentTranslatedIndex st)]"
          and i1: "currentTranslatedIndex st1 = Suc (currentTranslatedIndex st)"
          by blast
        from rest i1 have "list_all (\<lambda>(it, s). paintable ev it s)
             (zip (survivingRuns items) (drop (currentTranslatedIndex st1) tr))"
          by simp
        from Cons.IH [OF this]
        obtain st2 where "drawLoop ev tr st1 (map (styleItem cv vp) items) = Inr st2"
          and "ops st2 = ops st1 @
              pairedOps ev cv vp (survivingRuns items) (drop (currentTranslatedIndex st1) tr)"
          by blast
        with s1 o1 i1 d TextItem False show ?thesis by simp
      next
        case nomore: False
        let ?st1 = "st\<lparr>ops := ops st @ [eraseFor it]\<rparr>"
        from nomore have e: "drop (currentTranslatedIndex st) tr = []" by simp
        have "list_all (\<lambda>(it, s). paintable ev it s)
             (zip (survivingRuns items) (drop (currentTranslatedIndex ?st1) tr))"
          using e by simp
        from Cons.IH [OF this]
        obtain st2 where "drawLoop ev tr ?st1 (map (styleItem cv vp) items) = Inr st2"
          and "ops st2 = ops ?st1 @
              pairedOps ev cv vp (survivingRuns items) (drop (currentTranslatedIndex ?st1) tr)"
          by blast
        with drawItem_unpaired [OF False nomore, of ev "sampleColor cv vp it"] e TextItem False
        show ?thesis by simp
      qed
    qed
  qed
qed

lemma drawLoop_unpaintable:
  "\<not> list_all (\<lambda>(it, s). paintable ev it s)
     (zip (survivingRuns items) (drop (currentTranslatedIndex st) tr)) \<Longrightarrow>
   \<exists>m. drawLoop ev tr st (map (styleItem cv vp) items) = Inl (DrawError m)"
proof (induction items arbitrary: st)
  case Nil
  then show ?case by simp
next
  case (Cons i items)
  show ?case
  proof (cases i)
    case TextMarkedContent
    with Cons show ?thesis by simp
  next
    case (TextItem it)
    show ?thesis
    proof (cases "trim (str it) = []")
      case True
      with TextItem Cons show ?thesis by simp
    next
      case False
      show ?thesis
      proof (cases "currentTranslatedIndex st < length tr")
        case True
        then have d: "drop (currentTranslatedIndex st) tr =
            tr ! currentTranslatedIndex st # drop (Suc (currentTranslatedIndex st)) tr"
          by (simp add: Cons_nth_drop_Suc)
        show ?thesis
        proof (cases "paintable ev it (tr ! currentTranslatedIndex st)")
          case here: True
          from drawItem_paired [OF False True here, of cv vp]
          obtain st1 where s1: "drawItem ev tr st (Styled it (sampleColor cv vp it)) = Inr st1"
            and i1: "currentTranslatedIndex st1 = Suc (currentTranslatedIndex st)"
            by blast
          from Cons.prems TextItem False d here i1
          have "\<not> list_all (\<lambda>(it, s). paintable ev it s)
             (zip (survivingRuns items) (drop (currentTranslatedIndex st1) tr))"
            by simp
          from Cons.IH [OF this] s1 TextItem False show ?thesis by simp
        next
          case nothere: False
          from drawItem_unpaintable [OF False True nothere, of "sampleColor cv vp it"]
            TextItem False show ?thesis by auto
        qed
      next
        case nomore: False
        then have "drop (currentTranslatedIndex st) tr = []" by simp
        with Cons.prems show ?thesis by simp
      qed
    qed
  qed
qed

lemma drawItem_error_kind:
  "drawItem ev tr st i = Inl e \<Longrightarrow> \<exists>m. e = DrawError m"
  by (cases i) (auto simp add: Let_def split: if_splits sum.splits)

lemma drawLoop_error_kind:
  "drawLoop ev tr st items = Inl e \<Longrightarrow> \<exists>m. e = DrawError m"
proof (induction items arbitrary: st)
  case Nil
  then show ?case by simp
next
  case (Cons i items)
  then show ?case
    by (auto split: sum.splits dest: drawItem_error_kind)
qed

lemma translateBatch_error_kind:
  "translateBatch ev cfg batch = Inl e \<Longrightarrow> \<exists>m. e = ProviderError m"
  by (auto simp add: translateBatch_def split: sum.splits if_splits)

lemma handlePage_not_mismatch:
  "handlePage ev cfg ctx vp items fonts \<noteq> Inl BatchMismatch"
proof
  assume h: "handlePage ev cfg ctx vp items fonts = Inl BatchMismatch"
  then show False
    by (auto simp add: handlePage_def Let_def
        split: if_splits option.splits sum.splits
        dest: translateBatch_error_kind drawLoop_error_kind)
qed

lemma pairedOps_Nil: "pairedOps ev cv vp its [] = map eraseFor its"
  by (induction its) simp_all

lemma pairedOps_zip:
  "pairedOps ev cv vp its ss =
   concat (map (\<lambda>(it, s). [eraseFor it, paintFor ev cv vp it s]) (zip its ss))
   @ map eraseFor (drop (length ss) its)"
  by (induction ev cv vp its ss rule: pairedOps.induct) (simp_all add: pairedOps_Nil)

lemma pairedOps_nth:
  "k < length its \<Longrightarrow> k < length ss \<Longrightarrow>
   pairedOps ev cv vp its ss ! (2 * k) = eraseFor (its ! k)
   \<and> pairedOps ev cv vp its ss ! (2 * k + 1) = paintFor ev cv vp (its ! k) (ss ! k)"
proof (induction ev cv vp its ss arbitrary: k rule: pairedOps.induct)
  case (3 ev cv vp it its s ss)
  show ?case
  proof (cases k)
    case 0
    then show ?thesis by simp
  next
    case (Suc j)
    with "3.prems" have "j < length its" "j < length ss" by simp_all
    from "3.IH" [OF this] Suc show ?thesis by simp
  qed
qed simp_all

lemma pairedOps_length:
  "length (pairedOps ev cv vp its ss) = length its + min (length its) (length ss)"
  by (induction ev cv vp its ss rule: pairedOps.induct) simp_all

lemma handlePage_empty:
  "survivingRuns items = [] \<Longrightarrow>
   handlePage ev cfg ctx vp items fonts =
     Inr \<lparr>pageOps = [], pageFonts = fonts, providerCalls = []\<rparr>"
  by (simp add: handlePage_def originalTexts_survivors Let_def split: option.splits)

lemma handlePage_painted:
  assumes "survivingRuns items \<noteq> []"
    and "translateBatch ev cfg (textToTranslateOf ev cfg (map str (survivingRuns items)))
         = Inr resp"
    and "list_all (\<lambda>(it, s). paintable ev it s)
           (zip (survivingRuns items) (str_split resp sentinel))"
  shows "\<exists>res. handlePage ev cfg (Some cv) vp items fonts = Inr res
    \<and> pageOps res = pairedOps ev cv vp (survivingRuns items) (str_split resp sentinel)
    \<and> providerCalls res = [textToTranslateOf ev cfg (map str (survivingRuns items))]"
proof -
  from assms(1) have ne: "items \<noteq> []" by auto
  let ?st = "\<lparr>ops = [], embeddedFonts = fonts, currentTranslatedIndex = 0\<rparr>"
  from assms(3) have "list_all (\<lambda>(it, s). paintable ev it s)
      (zip (survivingRuns items) (drop (currentTranslatedIndex ?st) (str_split resp sentinel)))"
    by simp
  from drawLoop_paintable [OF this, of cv vp]
  obtain st1 where "drawLoop ev (str_split resp sentinel) ?st (map (styleItem cv vp) items) = Inr st1"
    and "ops st1 = pairedOps ev cv vp (survivingRuns items) (str_split resp sentinel)"
    by auto
  with ne assms(1) assms(2) show ?thesis
    by (simp add: handlePage_def originalTexts_survivors Let_def)
qed

lemma handlePage_draw_error:
  assumes "survivingRuns items \<noteq> []"
    and "translateBatch ev cfg (textToTranslateOf ev cfg (map str (survivingRuns items)))
         = Inr resp"
    and "\<not> list_all (\<lambda>(it, s). paintable ev it s)
           (zip (survivingRuns items) (str_split resp sentinel))"
  shows "\<exists>m. handlePage ev cfg (Some cv) vp items fonts = Inl (DrawError m)"
proof -
  from assms(1) have ne: "items \<noteq> []" by auto
  let ?st = "\<lparr>ops = [], embeddedFonts = fonts, currentTranslatedIndex = 0\<rparr>"
  from assms(3) have "\<not> list_all (\<lambda>(it, s). paintable ev it s)
      (zip (survivingRuns items) (drop (currentTranslatedIndex ?st) (str_split resp sentinel)))"
    by simp
  from drawLoop_unpaintable [OF this, of cv vp]
  obtain m where "drawLoop ev (str_split resp sentinel) ?st (map (styleItem cv vp) items)
      = Inl (DrawError m)"
    by auto
  with ne assms(1) assms(2) show ?thesis
    by (simp add: handlePage_def originalTexts_survivors Let_def)
qed

lemma handlePage_provider_error:
  assumes "survivingRuns items \<noteq> []"
    and "translateBatch ev cfg (textToTranslateOf ev cfg (map str (survivingRuns items)))
         = Inl e"
  shows "handlePage ev cfg (Some cv) vp items fonts = Inl e"
proof -
  from assms(1) have "items \<noteq> []" by auto
  with assms show ?thesis
    by (simp add: handlePage_def originalTexts_survivors Let_def)
qed

lemma survivingRuns_filter:
  "survivingRuns (filter (\<lambda>i. \<not> emptyRun i) items) = survivingRuns items"
proof (induction items)
  case Nil
  then show ?case by simp
next
  case (Cons i items)
  then show ?case by (cases i) simp_all
qed

lemma drawLoop_filter:
  "drawLoop ev tr st (map (styleItem cv vp) (filter (\<lambda>i. \<not> emptyRun i) items)) =
   drawLoop ev tr st (map (styleItem cv vp) items)"
proof (induction items arbitrary: st)
  case Nil
  then show ?case by simp
next
  case (Cons i items)
  then show ?case
    by (cases i) (simp_all del: drawItem.simps(2) split: sum.splits)
qed

lemma handlePage_filter:
  "handlePage ev cfg ctx vp (filter (\<lambda>i. \<not> emptyRun i) items) fonts =
   handlePage ev cfg ctx vp items fonts"
proof (cases "survivingRuns items = []")
  case True
  then have "survivingRuns (filter (\<lambda>i. \<not> emptyRun i) items) = []"
    by (simp add: survivingRuns_filter)
  with True show ?thesis by (simp add: handlePage_empty)
next
  case False
  then have a: "items \<noteq> []" by auto
  from False have "survivingRuns (filter (\<lambda>i. \<not> emptyRun i) items) \<noteq> []"
    by (simp add: survivingRuns_filter)
  then have b: "filter (\<lambda>i. \<not> emptyRun i) items \<noteq> []" by auto
  from a b show ?thesis
    by (cases ctx)
      (simp_all add: handlePage_def Let_def originalTexts_survivors survivingRuns_filter
        drawLoop_filter split: sum.splits)
qed

lemma zip_take_left: "zip xs (take (length xs) ys) = zip xs ys"
proof (induction xs arbitrary: ys)
  case Nil
  then show ?case by simp
next
  case (Cons x xs)
  then show ?case by (cases ys) simp_all
qed

lemma survivingRuns_as_filter:
  "map TextItem (survivingRuns items) =
   filter (\<lambda>i. i \<noteq> TextMarkedContent \<and> \<not> emptyRun i) items"
proof (induction items)
  case Nil
  then show ?case by simp
next
  case (Cons i items)
  then show ?case by (cases i) simp_all
qed

section \<open>The example pages\<close>

lemma run_fields:
  "str run1 = ''Hello''" "transform run1 = (12, 0, 0, 12, 72, 700)"
  "width run1 = 30" "height run1 = 12" "fontName run1 = ''Helvetica-Bold''"
  "str run2 = ''World''" "transform run2 = (12, 0, 0, 12, 72, 680)"
  "width run2 = 30" "height run2 = 12" "fontName run2 = ''Arial''"
  "str run3 = ''Good''" "transform run3 = (12, 0, 0, 12, 72, 660)"
  "width run3 = 30" "height run3 = 12" "fontName run3 = ''Arial''"
  "str run4 = ''Morning''" "transform run4 = (12, 0, 0, 12, 72, 640)"
  "width run4 = 30" "height run4 = 12" "fontName run4 = ''Arial''"
  "str run5 = ''Friends''" "transform run5 = (12, 0, 0, 12, 72, 620)"
  "width run5 = 30" "height run5 = 12" "fontName run5 = ''Arial''"
  "str blankRun = ''  ''"
  by (simp_all add: run1_def run2_def run3_def run4_def run5_def blankRun_def)

lemma run_fonts:
  "getFont ''Helvetica-Bold'' = HelveticaBold" "getFont ''Arial'' = Helvetica"
  by code_simp+

lemma run_trims:
  "trim ''Hello'' = ''Hello''" "trim ''World'' = ''World''" "trim ''Good'' = ''Good''"
  "trim ''Morning'' = ''Morning''" "trim ''Friends'' = ''Friends''" "trim ''  '' = []"
  by code_simp+

lemma run_colors:
  "sampleColor cvLetter vpLetter run1 = rgb 0 0 0"
  "sampleColor cvLetter vpLetter run2 = rgb 0 0 0"
  "sampleColor cvLetter vpLetter run3 = rgb 0 0 0"
  "sampleColor cvLetter vpLetter run4 = rgb 0 0 0"
  "sampleColor cvLetter vpLetter run5 = rgb 0 0 0"
  by (simp_all add: sampleColor_cvLetter bgSamplePoint_def inBounds_def Let_def run_fields
      vpLetter_def) (simp_all add: cvLetter_def)

lemma example_widths:
  "widthOfTextAtSize (envAnswering r) f ''uno'' 12 = Inr 18"
  "widthOfTextAtSize (envAnswering r) f ''dos'' 12 = Inr 18"
  "widthOfTextAtSize (envAnswering r) f ''tres'' 12 = Inr 24"
  "widthOfTextAtSize (envAnswering r) f answerWithLineFeed 12 = Inl ''WinAnsi cannot encode''"
  by (simp_all add: envAnswering_def answerWithLineFeed_def)

lemma example_draws: "drawText (envAnswering r) s f z = Inr ()"
  by (simp add: envAnswering_def)

lemma example_paintable:
  "paintable (envAnswering r) run1 ''uno''"
  "paintable (envAnswering r) run2 ''dos''"
  "paintable (envAnswering r) run3 ''tres''"
  "\<not> paintable (envAnswering r) run1 answerWithLineFeed"
  by (simp_all add: paintable_def run_fields run_fonts example_widths example_draws)

lemma handlePage_steps:
  assumes "items \<noteq> []"
    and "map (styleItem cv vp) items = styled"
    and "originalTextsOf styled = texts"
    and "texts \<noteq> []"
    and "textToTranslateOf ev cfg texts = batch"
    and "translateBatch ev cfg batch = Inr resp"
    and "str_split resp sentinel = pieces"
    and "drawLoop ev pieces
           \<lparr>ops = [], embeddedFonts = fonts, currentTranslatedIndex = 0\<rparr> styled = outcome"
  shows "handlePage ev cfg (Some cv) vp items fonts =
     (case outcome of
        Inl e \<Rightarrow> Inl e
      | Inr st \<Rightarrow>
          Inr \<lparr>pageOps = ops st, pageFonts = embeddedFonts st, providerCalls = [batch]\<rparr>)"
  using assms by (simp add: handlePage_def Let_def)

lemma answering: "translateBatch (envAnswering r) cfgSpanish batch = Inr r"
  by (simp add: translateBatch_def cfgSpanish_def envAnswering_def)

lemma split_examples:
  "str_split ''uno'' sentinel = [''uno'']"
  "str_split ''uno ||| dos ||| tres'' sentinel = [''uno'', ''dos'', ''tres'']"
  "str_split answerWithLineFeed sentinel = [answerWithLineFeed]"
  "str_split answerWithLineFeedAndMore sentinel = [answerWithLineFeed, ''mundo'']"
  by (simp_all add: str_split_def sentinel_def answerWithLineFeed_def
      answerWithLineFeedAndMore_def)

lemma page_two:
  "handlePage (envAnswering ''uno'') cfgSpanish (Some cvLetter) vpLetter pageOfTwo [] =
     Inr \<lparr>pageOps = [EraseRect 72 697 31 15 (rgb 1 1 1),
                      PaintText ''uno'' 72 700 HelveticaBold 12 (rgb 0 0 0),
                      EraseRect 72 677 31 15 (rgb 1 1 1)],
          pageFonts = [HelveticaBold],
          providerCalls = [''Hello ||| World'']\<rparr>"
proof -
  have styled: "map (styleItem cvLetter vpLetter) pageOfTwo =
      [Styled run1 (rgb 0 0 0), Unstyled TextMarkedContent, Unstyled (TextItem blankRun),
       Styled run2 (rgb 0 0 0)]"
    by (simp add: pageOfTwo_def run_fields run_trims run_colors)
  have texts: "originalTextsOf [Styled run1 (rgb 0 0 0), Unstyled TextMarkedContent,
       Unstyled (TextItem blankRun), Styled run2 (rgb 0 0 0)] = [''Hello'', ''World'']"
    by (simp add: originalTextsOf_def run_fields run_trims trim_Nil)
  have batch: "textToTranslateOf (envAnswering ''uno'') cfgSpanish [''Hello'', ''World'']
      = ''Hello ||| World''"
    by (simp add: textToTranslateOf_def cfgSpanish_def sentinel_def)
  have answer: "translateBatch (envAnswering ''uno'') cfgSpanish ''Hello ||| World'' = Inr ''uno''"
    by (rule answering)
  have drawn: "drawLoop (envAnswering ''uno'') [''uno'']
        \<lparr>ops = [], embeddedFonts = [], currentTranslatedIndex = 0\<rparr>
        [Styled run1 (rgb 0 0 0), Unstyled TextMarkedContent, Unstyled (TextItem blankRun),
         Styled run2 (rgb 0 0 0)]
      = Inr \<lparr>ops = [EraseRect 72 697 31 15 (rgb 1 1 1),
                  PaintText ''uno'' 72 700 HelveticaBold 12 (rgb 0 0 0),
                  EraseRect 72 677 31 15 (rgb 1 1 1)],
          embeddedFonts = [HelveticaBold], currentTranslatedIndex = 1\<rparr>"
    by (simp add: Let_def run_fields run_fonts run_trims fitSize_def example_widths
        example_draws)
  have ne: "pageOfTwo \<noteq> []"
    by (simp add: pageOfTwo_def)
  have "[''Hello'', ''World''] \<noteq> []" by simp
  from handlePage_steps [OF ne styled texts this batch answer split_examples(1) drawn]
  show ?thesis by simp
qed

lemma page_five:
  "handlePage (envAnswering ''uno ||| dos ||| tres'') cfgSpanish (Some cvLetter) vpLetter
       pageOfFive [] =
     Inr \<lparr>pageOps = [EraseRect 72 697 31 15 (rgb 1 1 1),
                      PaintText ''uno'' 72 700 HelveticaBold 12 (rgb 0 0 0),
                      EraseRect 72 677 31 15 (rgb 1 1 1),
                      PaintText ''dos'' 72 680 Helvetica 12 (rgb 0 0 0),
                      EraseRect 72 657 31 15 (rgb 1 1 1),
                      PaintText ''tres'' 72 660 Helvetica 12 (rgb 0 0 0),
                      EraseRect 72 637 31 15 (rgb 1 1 1),
                      EraseRect 72 617 31 15 (rgb 1 1 1)],
          pageFonts = [HelveticaBold, Helvetica],
          providerCalls = [''Hello ||| World ||| Good ||| Morning ||| Friends'']\<rparr>"
proof -
  let ?ev = "envAnswering ''uno ||| dos ||| tres''"
  let ?styled = "[Styled run1 (rgb 0 0 0), Styled run2 (rgb 0 0 0), Styled run3 (rgb 0 0 0),
       Styled run4 (rgb 0 0 0), Styled run5 (rgb 0 0 0)]"
  let ?texts = "[''Hello'', ''World'', ''Good'', ''Morning'', ''Friends'']"
  let ?batch = "''Hello ||| World ||| Good ||| Morning ||| Friends''"
  have styled: "map (styleItem cvLetter vpLetter) pageOfFive = ?styled"
    by (simp add: pageOfFive_def run_fields run_trims run_colors)
  have texts: "originalTextsOf ?styled = ?texts"
    by (simp add: originalTextsOf_def run_fields run_trims)
  have batch: "textToTranslateOf ?ev cfgSpanish ?texts = ?batch"
    by (simp add: textToTranslateOf_def cfgSpanish_def sentinel_def)
  have answer: "translateBatch ?ev cfgSpanish ?batch = Inr ''uno ||| dos ||| tres''"
    by (rule answering)
  have drawn: "drawLoop ?ev [''uno'', ''dos'', ''tres'']
        \<lparr>ops = [], embeddedFonts = [], currentTranslatedIndex = 0\<rparr> ?styled
      = Inr \<lparr>ops = [EraseRect 72 697 31 15 (rgb 1 1 1),
                  PaintText ''uno'' 72 700 HelveticaBold 12 (rgb 0 0 0),
                  EraseRect 72 677 31 15 (rgb 1 1 1),
                  PaintText ''dos'' 72 680 Helvetica 12 (rgb 0 0 0),
                  EraseRect 72 657 31 15 (rgb 1 1 1),
                  PaintText ''tres'' 72 660 Helvetica 12 (rgb 0 0 0),
                  EraseRect 72 637 31 15 (rgb 1 1 1),
                  EraseRect 72 617 31 15 (rgb 1 1 1)],
          embeddedFonts = [HelveticaBold, Helvetica], currentTranslatedIndex = 3\<rparr>"
    by (simp add: Let_def run_fields run_fonts run_trims fitSize_def example_widths
        example_draws)
  have ne: "pageOfFive \<noteq> []"
    by (simp add: pageOfFive_def)
  have "?texts \<noteq> []" by simp
  from handlePage_steps [OF ne styled texts this batch answer split_examples(2) drawn]
  show ?thesis by simp
qed

lemma page_one_fails:
  assumes "str_split r sentinel = answerWithLineFeed # others"
  shows "handlePage (envAnswering r) cfgSpanish (Some cvLetter) vpLetter pageOfOne [] =
     Inl (DrawError ''WinAnsi cannot encode'')"
proof -
  have styled: "map (styleItem cvLetter vpLetter) pageOfOne = [Styled run1 (rgb 0 0 0)]"
    by (simp add: pageOfOne_def run_fields run_trims run_colors)
  have texts: "originalTextsOf [Styled run1 (rgb 0 0 0)] = [''Hello'']"
    by (simp add: originalTextsOf_def run_fields run_trims)
  have batch: "textToTranslateOf (envAnswering r) cfgSpanish [''Hello''] = ''Hello''"
    by (simp add: textToTranslateOf_def cfgSpanish_def)
  have answer: "translateBatch (envAnswering r) cfgSpanish ''Hello'' = Inr r"
    by (rule answering)
  have drawn: "drawLoop (envAnswering r) (answerWithLineFeed # others)
        \<lparr>ops = [], embeddedFonts = [], currentTranslatedIndex = 0\<rparr>
        [Styled run1 (rgb 0 0 0)]
      = Inl (DrawError ''WinAnsi cannot encode'')"
    by (simp add: Let_def run_fields run_fonts run_trims example_widths)
  have ne: "pageOfOne \<noteq> []"
    by (simp add: pageOfOne_def)
  have "[''Hello''] \<noteq> []" by simp
  from handlePage_steps [OF ne styled texts this batch answer assms drawn]
  show ?thesis by simp
qed

lemma survivors_one: "survivingRuns pageOfOne = [run1]"
  by (simp add: pageOfOne_def run_fields run_trims)

lemma survivors_two: "survivingRuns pageOfTwo = [run1, run2]"
  by (simp add: pageOfTwo_def run_fields run_trims)

lemma survivors_five: "survivingRuns pageOfFive = [run1, run2, run3, run4, run5]"
  by (simp add: pageOfFive_def run_fields run_trims)

section \<open>Pairing runs with translated texts\<close>

text \<open>
  Claim C2, as amended. On a page whose batch is answered: when every translated text
  that is paired with a run can be measured and drawn by pdf-lib, the page succeeds
  and, among the runs that survive the empty-text filter, taken in page order, each run
  that has a matching translated text yields exactly one EraseRect followed immediately
  by its PaintText, and each remaining run, for which the translated texts have run
  out, still yields exactly one EraseRect and no PaintText; when a paired text cannot
  be measured or drawn, the page fails with the error pdf-lib throws.
\<close>

theorem every_run_erased_paired_runs_painted:
  assumes "survivingRuns items \<noteq> []"
    and "translateBatch ev cfg (textToTranslateOf ev cfg (map str (survivingRuns items)))
         = Inr resp"
  shows "(list_all (\<lambda>(it, s). paintable ev it s)
            (zip (survivingRuns items) (str_split resp sentinel))
          \<longrightarrow> (\<exists>res. handlePage ev cfg (Some cv) vp items fonts = Inr res
                \<and> pageOps res =
                    concat (map (\<lambda>(it, s). [eraseFor it, paintFor ev cv vp it s])
                              (zip (survivingRuns items) (str_split resp sentinel)))
                    @ map eraseFor
                        (drop (length (str_split resp sentinel)) (survivingRuns items))))
    \<and> (\<not> list_all (\<lambda>(it, s). paintable ev it s)
            (zip (survivingRuns items) (str_split resp sentinel))
          \<longrightarrow> (\<exists>m. handlePage ev cfg (Some cv) vp items fonts = Inl (DrawError m)))"
proof (intro conjI impI)
  assume "list_all (\<lambda>(it, s). paintable ev it s)
            (zip (survivingRuns items) (str_split resp sentinel))"
  from handlePage_painted [OF assms this, of cv vp fonts]
  show "\<exists>res. handlePage ev cfg (Some cv) vp items fonts = Inr res
                \<and> pageOps res =
                    concat (map (\<lambda>(it, s). [eraseFor it, paintFor ev cv vp it s])
                              (zip (survivingRuns items) (str_split resp sentinel)))
                    @ map eraseFor
                        (drop (length (str_split resp sentinel)) (survivingRuns items))"
    by (auto simp: pairedOps_zip)
next
  assume "\<not> list_all (\<lambda>(it, s). paintable ev it s)
            (zip (survivingRuns items) (str_split resp sentinel))"
  from handlePage_draw_error [OF assms this]
  show "\<exists>m. handlePage ev cfg (Some cv) vp items fonts = Inl (DrawError m)" .
qed

theorem every_run_erased_paired_runs_painted_witness:
  "survivingRuns pageOfTwo \<noteq> []
   \<and> translateBatch (envAnswering ''uno'') cfgSpanish
        (textToTranslateOf (envAnswering ''uno'') cfgSpanish (map str (survivingRuns pageOfTwo)))
       = Inr ''uno''
   \<and> list_all (\<lambda>(it, s). paintable (envAnswering ''uno'') it s)
        (zip (survivingRuns pageOfTwo) (str_split ''uno'' sentinel))
   \<and> (\<exists>res. handlePage (envAnswering ''uno'') cfgSpanish (Some cvLetter) vpLetter pageOfTwo []
              = Inr res
        \<and> pageOps res =
            [eraseFor run1, paintFor (envAnswering ''uno'') cvLetter vpLetter run1 ''uno'',
             eraseFor run2])
   \<and> survivingRuns pageOfOne \<noteq> []
   \<and> translateBatch (envAnswering answerWithLineFeed) cfgSpanish
        (textToTranslateOf (envAnswering answerWithLineFeed) cfgSpanish
           (map str (survivingRuns pageOfOne)))
       = Inr answerWithLineFeed
   \<and> \<not> list_all (\<lambda>(it, s). paintable (envAnswering answerWithLineFeed) it s)
        (zip (survivingRuns pageOfOne) (str_split answerWithLineFeed sentinel))
   \<and> (\<exists>m. handlePage (envAnswering answerWithLineFeed) cfgSpanish (Some cvLetter) vpLetter
             pageOfOne [] = Inl (DrawError m))"
proof -
  let ?ev = "envAnswering ''uno''"
  let ?lf = "envAnswering answerWithLineFeed"
  have a: "survivingRuns pageOfTwo \<noteq> []" by (simp add: survivors_two)
  have b: "translateBatch ?ev cfgSpanish
        (textToTranslateOf ?ev cfgSpanish (map str (survivingRuns pageOfTwo)))
       = Inr ''uno''" by (rule answering)
  have c: "list_all (\<lambda>(it, s). paintable ?ev it s)
        (zip (survivingRuns pageOfTwo) (str_split ''uno'' sentinel))"
    by (simp add: survivors_two split_examples example_paintable)
  from every_run_erased_paired_runs_painted [OF a b, of cvLetter vpLetter "[]"] c
  have d: "\<exists>res. handlePage ?ev cfgSpanish (Some cvLetter) vpLetter pageOfTwo [] = Inr res
        \<and> pageOps res =
            [eraseFor run1, paintFor ?ev cvLetter vpLetter run1 ''uno'', eraseFor run2]"
    by (simp add: survivors_two split_examples)
  have e: "survivingRuns pageOfOne \<noteq> []" by (simp add: survivors_one)
  have f: "translateBatch ?lf cfgSpanish
        (textToTranslateOf ?lf cfgSpanish (map str (survivingRuns pageOfOne)))
       = Inr answerWithLineFeed" by (rule answering)
  have g: "\<not> list_all (\<lambda>(it, s). paintable ?lf it s)
        (zip (survivingRuns pageOfOne) (str_split answerWithLineFeed sentinel))"
    by (simp add: survivors_one split_examples example_paintable)
  from every_run_erased_paired_runs_painted [OF e f, of cvLetter vpLetter "[]"] g
  have h: "\<exists>m. handlePage ?lf cfgSpanish (Some cvLetter) vpLetter pageOfOne []
      = Inl (DrawError m)"
    by blast
  from a b c d e f g h show ?thesis by blast
qed

text \<open>
  Claim C2 as stated fails: on a page of two runs whose batch comes back as the single
  segment "uno", the second run has no translated text and is erased all the same.
\<close>

theorem unpaired_run_still_erased_counterexample:
  "survivingRuns pageOfTwo = [run1, run2]
   \<and> translateBatch (envAnswering ''uno'') cfgSpanish ''Hello ||| World'' = Inr ''uno''
   \<and> str_split ''uno'' sentinel = [''uno'']
   \<and> handlePage (envAnswering ''uno'') cfgSpanish (Some cvLetter) vpLetter pageOfTwo [] =
       Inr \<lparr>pageOps = [EraseRect 72 697 31 15 (rgb 1 1 1),
                        PaintText ''uno'' 72 700 HelveticaBold 12 (rgb 0 0 0),
                        EraseRect 72 677 31 15 (rgb 1 1 1)],
            pageFonts = [HelveticaBold],
            providerCalls = [''Hello ||| World'']\<rparr>"
  using survivors_two answering [of "''uno''" "''Hello ||| World''"] split_examples(1) page_two
  by blast

text \<open>
  Claim C6, as amended. On a page whose batch is answered and whose paired translated
  texts can all be measured and drawn by pdf-lib, for every surviving run that is
  paired with a translated text the EraseRect has the run's origin x, the origin y
  lowered by 0.25 times the run's height, the run's width plus 1 and 1.25 times the
  run's height, and is filled with white; the PaintText that follows it is placed at
  the run's origin (the baseline coordinates), in the resolved font, at the size fitted
  to the measured width and in the sampled colour.
\<close>

theorem paired_run_erase_and_paint_geometry:
  assumes "translateBatch ev cfg (textToTranslateOf ev cfg (map str (survivingRuns items)))
         = Inr resp"
    and "list_all (\<lambda>(it, s). paintable ev it s)
           (zip (survivingRuns items) (str_split resp sentinel))"
    and "k < length (survivingRuns items)"
    and "k < length (str_split resp sentinel)"
    and "widthOfTextAtSize ev (getFont (fontName (survivingRuns items ! k)))
           (str_split resp sentinel ! k) (height (survivingRuns items ! k)) = Inr textWidth"
  shows "\<exists>res. handlePage ev cfg (Some cv) vp items fonts = Inr res
    \<and> pageOps res ! (2 * k) =
        EraseRect (at4 (transform (survivingRuns items ! k)))
          (at5 (transform (survivingRuns items ! k)) - 0.25 * height (survivingRuns items ! k))
          (width (survivingRuns items ! k) + 1)
          (height (survivingRuns items ! k) * 1.25)
          \<lparr>red = 1, green = 1, blue = 1\<rparr>
    \<and> pageOps res ! (2 * k + 1) =
        PaintText (str_split resp sentinel ! k)
          (at4 (transform (survivingRuns items ! k)))
          (at5 (transform (survivingRuns items ! k)))
          (getFont (fontName (survivingRuns items ! k)))
          (fitSize (height (survivingRuns items ! k)) (width (survivingRuns items ! k))
             textWidth)
          (sampleColor cv vp (survivingRuns items ! k))"
proof -
  from assms(3) have ne: "survivingRuns items \<noteq> []" by auto
  from handlePage_painted [OF ne assms(1) assms(2), of cv vp fonts]
  obtain res where res: "handlePage ev cfg (Some cv) vp items fonts = Inr res"
    and ops: "pageOps res = pairedOps ev cv vp (survivingRuns items) (str_split resp sentinel)"
    by blast
  from pairedOps_nth [OF assms(3) assms(4), of ev cv vp] ops
  have "pageOps res ! (2 * k) = eraseFor (survivingRuns items ! k)"
    and "pageOps res ! (2 * k + 1) =
      paintFor ev cv vp (survivingRuns items ! k) (str_split resp sentinel ! k)"
    by simp_all
  with res assms(5) show ?thesis
    by (simp add: eraseFor_def paintFor_def)
qed

theorem paired_run_erase_and_paint_geometry_witness:
  "translateBatch (envAnswering ''uno'') cfgSpanish
        (textToTranslateOf (envAnswering ''uno'') cfgSpanish (map str (survivingRuns pageOfTwo)))
       = Inr ''uno''
   \<and> list_all (\<lambda>(it, s). paintable (envAnswering ''uno'') it s)
        (zip (survivingRuns pageOfTwo) (str_split ''uno'' sentinel))
   \<and> 0 < length (survivingRuns pageOfTwo)
   \<and> 0 < length (str_split ''uno'' sentinel)
   \<and> widthOfTextAtSize (envAnswering ''uno'') (getFont (fontName (survivingRuns pageOfTwo ! 0)))
        (str_split ''uno'' sentinel ! 0) (height (survivingRuns pageOfTwo ! 0)) = Inr 18
   \<and> (\<exists>res. handlePage (envAnswering ''uno'') cfgSpanish (Some cvLetter) vpLetter pageOfTwo []
              = Inr res
        \<and> pageOps res ! 0 = EraseRect 72 697 31 15 \<lparr>red = 1, green = 1, blue = 1\<rparr>
        \<and> pageOps res ! 1 =
            PaintText ''uno'' 72 700 HelveticaBold 12 \<lparr>red = 0, green = 0, blue = 0\<rparr>)"
proof -
  let ?ev = "envAnswering ''uno''"
  have a: "translateBatch ?ev cfgSpanish
        (textToTranslateOf ?ev cfgSpanish (map str (survivingRuns pageOfTwo)))
       = Inr ''uno''" by (rule answering)
  have p: "list_all (\<lambda>(it, s). paintable ?ev it s)
        (zip (survivingRuns pageOfTwo) (str_split ''uno'' sentinel))"
    by (simp add: survivors_two split_examples example_paintable)
  have b: "0 < length (survivingRuns pageOfTwo)" by (simp add: survivors_two)
  have c: "0 < length (str_split ''uno'' sentinel)" by (simp add: split_examples)
  have w: "widthOfTextAtSize ?ev (getFont (fontName (survivingRuns pageOfTwo ! 0)))
        (str_split ''uno'' sentinel ! 0) (height (survivingRuns pageOfTwo ! 0)) = Inr 18"
    by (simp add: survivors_two split_examples run_fields example_widths)
  from paired_run_erase_and_paint_geometry [OF a p b c w, of cvLetter vpLetter "[]"]
  have "\<exists>res. handlePage ?ev cfgSpanish (Some cvLetter) vpLetter pageOfTwo [] = Inr res
        \<and> pageOps res ! 0 = EraseRect 72 697 31 15 \<lparr>red = 1, green = 1, blue = 1\<rparr>
        \<and> pageOps res ! 1 =
            PaintText ''uno'' 72 700 HelveticaBold 12 \<lparr>red = 0, green = 0, blue = 0\<rparr>"
    by (simp add: survivors_two split_examples run_fields run_fonts run_colors fitSize_def
        rgb_def)
  with a p b c w show ?thesis by blast
qed

text \<open>
  Claim C6 as stated fails: the only run of a page is paired with a translated text
  that holds a line feed; the rectangle is drawn, measuring the text throws, no
  PaintText follows and the page fails.
\<close>

theorem paired_run_not_painted_counterexample:
  "survivingRuns pageOfOne = [run1]
   \<and> translateBatch (envAnswering answerWithLineFeed) cfgSpanish ''Hello''
       = Inr answerWithLineFeed
   \<and> str_split answerWithLineFeed sentinel = [answerWithLineFeed]
   \<and> widthOfTextAtSize (envAnswering answerWithLineFeed) (getFont (fontName run1))
        answerWithLineFeed (height run1) = Inl ''WinAnsi cannot encode''
   \<and> handlePage (envAnswering answerWithLineFeed) cfgSpanish (Some cvLetter) vpLetter
        pageOfOne [] = Inl (DrawError ''WinAnsi cannot encode'')"
  using survivors_one answering [of answerWithLineFeed "''Hello''"] split_examples(3)
    example_widths(4) [of answerWithLineFeed "getFont (fontName run1)"]
    page_one_fails [OF split_examples(3)]
  by (simp add: run_fields)

text \<open>
  Claim C10, as amended. When the answer splits into more segments than there are
  surviving runs and the segments paired with the runs (the first ones, one per run)
  can be measured and drawn by pdf-lib, the page succeeds, every surviving run is
  erased and painted with the segment of its own rank, and the page's operations are
  those of the first segments alone: the surplus segments leave no trace, whatever they
  hold. When a paired segment cannot be measured or drawn, the page fails with the
  error pdf-lib throws.
\<close>

theorem surplus_segments_discarded:
  assumes "survivingRuns items \<noteq> []"
    and "translateBatch ev cfg (textToTranslateOf ev cfg (map str (survivingRuns items)))
         = Inr resp"
    and "length (survivingRuns items) < length (str_split resp sentinel)"
  shows "(list_all (\<lambda>(it, s). paintable ev it s)
            (zip (survivingRuns items) (str_split resp sentinel))
          \<longrightarrow> (\<exists>res. handlePage ev cfg (Some cv) vp items fonts = Inr res
                \<and> pageOps res =
                    concat (map (\<lambda>(it, s). [eraseFor it, paintFor ev cv vp it s])
                              (zip (survivingRuns items)
                                 (take (length (survivingRuns items))
                                    (str_split resp sentinel))))
                \<and> length (pageOps res) = 2 * length (survivingRuns items)
                \<and> (\<forall>k<length (survivingRuns items).
                      pageOps res ! (2 * k) = eraseFor (survivingRuns items ! k)
                      \<and> pageOps res ! (2 * k + 1) =
                          paintFor ev cv vp (survivingRuns items ! k)
                            (str_split resp sentinel ! k))))
    \<and> (\<not> list_all (\<lambda>(it, s). paintable ev it s)
            (zip (survivingRuns items) (str_split resp sentinel))
          \<longrightarrow> (\<exists>m. handlePage ev cfg (Some cv) vp items fonts = Inl (DrawError m)))"
proof (intro conjI impI)
  let ?runs = "survivingRuns items"
  let ?segs = "str_split resp sentinel"
  assume p: "list_all (\<lambda>(it, s). paintable ev it s) (zip ?runs ?segs)"
  from handlePage_painted [OF assms(1) assms(2) p, of cv vp fonts]
  obtain res where res: "handlePage ev cfg (Some cv) vp items fonts = Inr res"
    and ops: "pageOps res = pairedOps ev cv vp ?runs ?segs"
    by blast
  from assms(3) have "drop (length ?segs) ?runs = []" by simp
  then have a: "pageOps res =
      concat (map (\<lambda>(it, s). [eraseFor it, paintFor ev cv vp it s])
                (zip ?runs (take (length ?runs) ?segs)))"
    by (simp add: ops pairedOps_zip zip_take_left)
  from assms(3) have b: "length (pageOps res) = 2 * length ?runs"
    by (simp add: ops pairedOps_length)
  have c: "\<forall>k<length ?runs.
          pageOps res ! (2 * k) = eraseFor (?runs ! k)
          \<and> pageOps res ! (2 * k + 1) = paintFor ev cv vp (?runs ! k) (?segs ! k)"
  proof (intro allI impI)
    fix k assume k: "k < length ?runs"
    with assms(3) have "k < length ?segs" by simp
    from pairedOps_nth [OF k this, of ev cv vp] ops
    show "pageOps res ! (2 * k) = eraseFor (?runs ! k)
          \<and> pageOps res ! (2 * k + 1) = paintFor ev cv vp (?runs ! k) (?segs ! k)"
      by simp
  qed
  from res a b c
  show "\<exists>res. handlePage ev cfg (Some cv) vp items fonts = Inr res
                \<and> pageOps res =
                    concat (map (\<lambda>(it, s). [eraseFor it, paintFor ev cv vp it s])
                              (zip ?runs (take (length ?runs) ?segs)))
                \<and> length (pageOps res) = 2 * length ?runs
                \<and> (\<forall>k<length ?runs.
                      pageOps res ! (2 * k) = eraseFor (?runs ! k)
                      \<and> pageOps res ! (2 * k + 1) = paintFor ev cv vp (?runs ! k) (?segs ! k))"
    by blast
next
  assume "\<not> list_all (\<lambda>(it, s). paintable ev it s)
            (zip (survivingRuns items) (str_split resp sentinel))"
  from handlePage_draw_error [OF assms(1) assms(2) this]
  show "\<exists>m. handlePage ev cfg (Some cv) vp items fonts = Inl (DrawError m)" .
qed


theorem surplus_segments_discarded_witness:
  "survivingRuns pageOfTwo \<noteq> []
   \<and> translateBatch (envAnswering ''uno ||| dos ||| tres'') cfgSpanish
        (textToTranslateOf (envAnswering ''uno ||| dos ||| tres'') cfgSpanish
           (map str (survivingRuns pageOfTwo)))
       = Inr ''uno ||| dos ||| tres''
   \<and> length (survivingRuns pageOfTwo) < length (str_split ''uno ||| dos ||| tres'' sentinel)
   \<and> list_all (\<lambda>(it, s). paintable (envAnswering ''uno ||| dos ||| tres'') it s)
        (zip (survivingRuns pageOfTwo) (str_split ''uno ||| dos ||| tres'' sentinel))
   \<and> (\<exists>res. handlePage (envAnswering ''uno ||| dos ||| tres'') cfgSpanish (Some cvLetter)
               vpLetter pageOfTwo [] = Inr res
        \<and> pageOps res =
            [eraseFor run1,
             paintFor (envAnswering ''uno ||| dos ||| tres'') cvLetter vpLetter run1 ''uno'',
             eraseFor run2,
             paintFor (envAnswering ''uno ||| dos ||| tres'') cvLetter vpLetter run2 ''dos''])
   \<and> survivingRuns pageOfOne \<noteq> []
   \<and> translateBatch (envAnswering answerWithLineFeedAndMore) cfgSpanish
        (textToTranslateOf (envAnswering answerWithLineFeedAndMore) cfgSpanish
           (map str (survivingRuns pageOfOne)))
       = Inr answerWithLineFeedAndMore
   \<and> length (survivingRuns pageOfOne) < length (str_split answerWithLineFeedAndMore sentinel)
   \<and> \<not> list_all (\<lambda>(it, s). paintable (envAnswering answerWithLineFeedAndMore) it s)
        (zip (survivingRuns pageOfOne) (str_split answerWithLineFeedAndMore sentinel))
   \<and> (\<exists>m. handlePage (envAnswering answerWithLineFeedAndMore) cfgSpanish (Some cvLetter)
             vpLetter pageOfOne [] = Inl (DrawError m))"
proof -
  let ?ev = "envAnswering ''uno ||| dos ||| tres''"
  let ?lf = "envAnswering answerWithLineFeedAndMore"
  have a: "survivingRuns pageOfTwo \<noteq> []" by (simp add: survivors_two)
  have b: "translateBatch ?ev cfgSpanish
        (textToTranslateOf ?ev cfgSpanish (map str (survivingRuns pageOfTwo)))
       = Inr ''uno ||| dos ||| tres''" by (rule answering)
  have c: "length (survivingRuns pageOfTwo) < length (str_split ''uno ||| dos ||| tres'' sentinel)"
    by (simp add: survivors_two split_examples)
  have p: "list_all (\<lambda>(it, s). paintable ?ev it s)
        (zip (survivingRuns pageOfTwo) (str_split ''uno ||| dos ||| tres'' sentinel))"
    by (simp add: survivors_two split_examples example_paintable)
  from surplus_segments_discarded [OF a b c, of cvLetter vpLetter "[]"] p
  obtain res where "handlePage ?ev cfgSpanish (Some cvLetter) vpLetter pageOfTwo [] = Inr res"
    and "pageOps res =
        concat (map (\<lambda>(it, s). [eraseFor it, paintFor ?ev cvLetter vpLetter it s])
                  (zip (survivingRuns pageOfTwo)
                     (take (length (survivingRuns pageOfTwo))
                        (str_split ''uno ||| dos ||| tres'' sentinel))))"
    by blast
  then have d: "\<exists>res. handlePage ?ev cfgSpanish (Some cvLetter) vpLetter pageOfTwo [] = Inr res
        \<and> pageOps res =
            [eraseFor run1, paintFor ?ev cvLetter vpLetter run1 ''uno'',
             eraseFor run2, paintFor ?ev cvLetter vpLetter run2 ''dos'']"
    by (simp add: survivors_two split_examples)
  have e: "survivingRuns pageOfOne \<noteq> []" by (simp add: survivors_one)
  have f: "translateBatch ?lf cfgSpanish
        (textToTranslateOf ?lf cfgSpanish (map str (survivingRuns pageOfOne)))
       = Inr answerWithLineFeedAndMore" by (rule answering)
  have g: "length (survivingRuns pageOfOne) < length (str_split answerWithLineFeedAndMore sentinel)"
    by (simp add: survivors_one split_examples)
  have h: "\<not> list_all (\<lambda>(it, s). paintable ?lf it s)
        (zip (survivingRuns pageOfOne) (str_split answerWithLineFeedAndMore sentinel))"
    by (simp add: survivors_one split_examples example_paintable)
  from surplus_segments_discarded [OF e f g, of cvLetter vpLetter "[]"] h
  have i: "\<exists>m. handlePage ?lf cfgSpanish (Some cvLetter) vpLetter pageOfOne []
      = Inl (DrawError m)"
    by blast
  from a b c p d e f g h i show ?thesis by blast
qed

text \<open>
  Claim C10 as stated fails: the answer has two segments for a page of one run, and the
  first segment holds a line feed; measuring it throws, the run is not painted and the
  page signals an error.
\<close>

theorem surplus_with_line_feed_counterexample:
  "survivingRuns pageOfOne = [run1]
   \<and> translateBatch (envAnswering answerWithLineFeedAndMore) cfgSpanish ''Hello''
       = Inr answerWithLineFeedAndMore
   \<and> str_split answerWithLineFeedAndMore sentinel = [answerWithLineFeed, ''mundo'']
   \<and> widthOfTextAtSize (envAnswering answerWithLineFeedAndMore) (getFont (fontName run1))
        answerWithLineFeed (height run1) = Inl ''WinAnsi cannot encode''
   \<and> handlePage (envAnswering answerWithLineFeedAndMore) cfgSpanish (Some cvLetter) vpLetter
        pageOfOne [] = Inl (DrawError ''WinAnsi cannot encode'')"
  using survivors_one answering [of answerWithLineFeedAndMore "''Hello''"] split_examples(4)
    example_widths(4) [of answerWithLineFeedAndMore "getFont (fontName run1)"]
    page_one_fails [OF split_examples(4)]
  by (simp add: run_fields)

section \<open>Count mismatch\<close>

text \<open>
  Claim C1, as amended. When the answer of the translation service splits into a
  number of segments different from the number of texts sent, the page never fails
  with BatchMismatch (the count is not checked). When every segment paired with a run
  can be measured and drawn by pdf-lib, the page succeeds, the batch has been sent
  once, every surviving run is erased, in page order, and the runs that have a segment
  are painted with it, in order, right after their erasure; otherwise the page fails
  with the error pdf-lib throws. A page of five runs answered by three segments
  succeeds with five erasures and three painted texts.
\<close>

theorem count_mismatch_not_reported:
  assumes "survivingRuns items \<noteq> []"
    and "translateBatch ev cfg (textToTranslateOf ev cfg (map str (survivingRuns items)))
         = Inr resp"
    and "length (str_split resp sentinel) \<noteq> length (survivingRuns items)"
  shows "handlePage ev cfg (Some cv) vp items fonts \<noteq> Inl BatchMismatch
    \<and> (list_all (\<lambda>(it, s). paintable ev it s)
            (zip (survivingRuns items) (str_split resp sentinel))
          \<longrightarrow> (\<exists>res. handlePage ev cfg (Some cv) vp items fonts = Inr res
                \<and> providerCalls res =
                    [textToTranslateOf ev cfg (map str (survivingRuns items))]
                \<and> pageOps res =
                    concat (map (\<lambda>(it, s). [eraseFor it, paintFor ev cv vp it s])
                              (zip (survivingRuns items) (str_split resp sentinel)))
                    @ map eraseFor
                        (drop (length (str_split resp sentinel)) (survivingRuns items))))
    \<and> (\<not> list_all (\<lambda>(it, s). paintable ev it s)
            (zip (survivingRuns items) (str_split resp sentinel))
          \<longrightarrow> (\<exists>m. handlePage ev cfg (Some cv) vp items fonts = Inl (DrawError m)))"
proof (intro conjI impI)
  show "handlePage ev cfg (Some cv) vp items fonts \<noteq> Inl BatchMismatch"
    by (rule handlePage_not_mismatch)
next
  assume "list_all (\<lambda>(it, s). paintable ev it s)
            (zip (survivingRuns items) (str_split resp sentinel))"
  from handlePage_painted [OF assms(1) assms(2) this, of cv vp fonts]
  show "\<exists>res. handlePage ev cfg (Some cv) vp items fonts = Inr res
                \<and> providerCalls res =
                    [textToTranslateOf ev cfg (map str (survivingRuns items))]
                \<and> pageOps res =
                    concat (map (\<lambda>(it, s). [eraseFor it, paintFor ev cv vp it s])
                              (zip (survivingRuns items) (str_split resp sentinel)))
                    @ map eraseFor
                        (drop (length (str_split resp sentinel)) (survivingRuns items))"
    by (auto simp: pairedOps_zip)
next
  assume "\<not> list_all (\<lambda>(it, s). paintable ev it s)
            (zip (survivingRuns items) (str_split resp sentinel))"
  from handlePage_draw_error [OF assms(1) assms(2) this]
  show "\<exists>m. handlePage ev cfg (Some cv) vp items fonts = Inl (DrawError m)" .
qed

theorem count_mismatch_not_reported_witness:
  "survivingRuns pageOfFive \<noteq> []
   \<and> translateBatch (envAnswering ''uno ||| dos ||| tres'') cfgSpanish
        (textToTranslateOf (envAnswering ''uno ||| dos ||| tres'') cfgSpanish
           (map str (survivingRuns pageOfFive)))
       = Inr ''uno ||| dos ||| tres''
   \<and> length (str_split ''uno ||| dos ||| tres'' sentinel) \<noteq> length (survivingRuns pageOfFive)
   \<and> list_all (\<lambda>(it, s). paintable (envAnswering ''uno ||| dos ||| tres'') it s)
        (zip (survivingRuns pageOfFive) (str_split ''uno ||| dos ||| tres'' sentinel))
   \<and> (\<exists>res. handlePage (envAnswering ''uno ||| dos ||| tres'') cfgSpanish (Some cvLetter)
               vpLetter pageOfFive [] = Inr res
        \<and> pageOps res =
            [eraseFor run1,
             paintFor (envAnswering ''uno ||| dos ||| tres'') cvLetter vpLetter run1 ''uno'',
             eraseFor run2,
             paintFor (envAnswering ''uno ||| dos ||| tres'') cvLetter vpLetter run2 ''dos'',
             eraseFor run3,
             paintFor (envAnswering ''uno ||| dos ||| tres'') cvLetter vpLetter run3 ''tres'',
             eraseFor run4, eraseFor run5])
   \<and> survivingRuns pageOfOne \<noteq> []
   \<and> translateBatch (envAnswering answerWithLineFeedAndMore) cfgSpanish
        (textToTranslateOf (envAnswering answerWithLineFeedAndMore) cfgSpanish
           (map str (survivingRuns pageOfOne)))
       = Inr answerWithLineFeedAndMore
   \<and> length (str_split answerWithLineFeedAndMore sentinel) \<noteq> length (survivingRuns pageOfOne)
   \<and> \<not> list_all (\<lambda>(it, s). paintable (envAnswering answerWithLineFeedAndMore) it s)
        (zip (survivingRuns pageOfOne) (str_split answerWithLineFeedAndMore sentinel))
   \<and> (\<exists>m. handlePage (envAnswering answerWithLineFeedAndMore) cfgSpanish (Some cvLetter)
             vpLetter pageOfOne [] = Inl (DrawError m))"
proof -
  let ?ev = "envAnswering ''uno ||| dos ||| tres''"
  let ?lf = "envAnswering answerWithLineFeedAndMore"
  have a: "survivingRuns pageOfFive \<noteq> []" by (simp add: survivors_five)
  have b: "translateBatch ?ev cfgSpanish
        (textToTranslateOf ?ev cfgSpanish (map str (survivingRuns pageOfFive)))
       = Inr ''uno ||| dos ||| tres''" by (rule answering)
  have c: "length (str_split ''uno ||| dos ||| tres'' sentinel) \<noteq> length (survivingRuns pageOfFive)"
    by (simp add: survivors_five split_examples)
  have p: "list_all (\<lambda>(it, s). paintable ?ev it s)
        (zip (survivingRuns pageOfFive) (str_split ''uno ||| dos ||| tres'' sentinel))"
    by (simp add: survivors_five split_examples example_paintable)
  from count_mismatch_not_reported [OF a b c, of cvLetter vpLetter "[]"] p
  obtain res where "handlePage ?ev cfgSpanish (Some cvLetter) vpLetter pageOfFive [] = Inr res"
    and "pageOps res =
        concat (map (\<lambda>(it, s). [eraseFor it, paintFor ?ev cvLetter vpLetter it s])
                  (zip (survivingRuns pageOfFive) (str_split ''uno ||| dos ||| tres'' sentinel)))
        @ map eraseFor
            (drop (length (str_split ''uno ||| dos ||| tres'' sentinel))
               (survivingRuns pageOfFive))"
    by blast
  then have d: "\<exists>res. handlePage ?ev cfgSpanish (Some cvLetter) vpLetter pageOfFive [] = Inr res
        \<and> pageOps res =
            [eraseFor run1, paintFor ?ev cvLetter vpLetter run1 ''uno'',
             eraseFor run2, paintFor ?ev cvLetter vpLetter run2 ''dos'',
             eraseFor run3, paintFor ?ev cvLetter vpLetter run3 ''tres'',
             eraseFor run4, eraseFor run5]"
    by (simp add: survivors_five split_examples)
  have e: "survivingRuns pageOfOne \<noteq> []" by (simp add: survivors_one)
  have f: "translateBatch ?lf cfgSpanish
        (textToTranslateOf ?lf cfgSpanish (map str (survivingRuns pageOfOne)))
       = Inr answerWithLineFeedAndMore" by (rule answering)
  have g: "length (str_split answerWithLineFeedAndMore sentinel) \<noteq> length (survivingRuns pageOfOne)"
    by (simp add: survivors_one split_examples)
  have h: "\<not> list_all (\<lambda>(it, s). paintable ?lf it s)
        (zip (survivingRuns pageOfOne) (str_split answerWithLineFeedAndMore sentinel))"
    by (simp add: survivors_one split_examples example_paintable)
  from count_mismatch_not_reported [OF e f g, of cvLetter vpLetter "[]"] h
  have i: "\<exists>m. handlePage ?lf cfgSpanish (Some cvLetter) vpLetter pageOfOne []
      = Inl (DrawError m)"
    by blast
  from a b c p d e f g h i show ?thesis by blast
qed

text \<open>
  Claim C1 as stated fails: the page of five runs whose batch is answered by three
  segments does not fail with BatchMismatch; it succeeds with eight operations.
\<close>

theorem five_runs_three_segments_counterexample:
  "length (survivingRuns pageOfFive) = 5
   \<and> length (str_split ''uno ||| dos ||| tres'' sentinel) = 3
   \<and> handlePage (envAnswering ''uno ||| dos ||| tres'') cfgSpanish (Some cvLetter) vpLetter
        pageOfFive [] \<noteq> Inl BatchMismatch
   \<and> handlePage (envAnswering ''uno ||| dos ||| tres'') cfgSpanish (Some cvLetter) vpLetter
        pageOfFive [] =
       Inr \<lparr>pageOps = [EraseRect 72 697 31 15 (rgb 1 1 1),
                        PaintText ''uno'' 72 700 HelveticaBold 12 (rgb 0 0 0),
                        EraseRect 72 677 31 15 (rgb 1 1 1),
                        PaintText ''dos'' 72 680 Helvetica 12 (rgb 0 0 0),
                        EraseRect 72 657 31 15 (rgb 1 1 1),
                        PaintText ''tres'' 72 660 Helvetica 12 (rgb 0 0 0),
                        EraseRect 72 637 31 15 (rgb 1 1 1),
                        EraseRect 72 617 31 15 (rgb 1 1 1)],
            pageFonts = [HelveticaBold, Helvetica],
            providerCalls = [''Hello ||| World ||| Good ||| Morning ||| Friends'']\<rparr>"
  by (simp add: survivors_five split_examples page_five)

section \<open>Runs without text\<close>

text \<open>
  Claim C9. A run whose trimmed text is empty is left out of everything that follows:
  it gets no colour, its text is not among the texts to redact and translate, and the
  drawing loop passes over it; removing such runs from the page changes neither the
  operations, nor the font cache, nor the batch sent, nor a failure. The remaining runs
  keep their order. When no run survives, the page ends with no operation, no call of
  the translation service and no error.
\<close>

theorem empty_runs_excluded:
  "handlePage ev cfg ctx vp (filter (\<lambda>i. \<not> emptyRun i) items) fonts
     = handlePage ev cfg ctx vp items fonts
   \<and> (emptyRun i \<longrightarrow> styleItem cv vp i = Unstyled i
                      \<and> strOf (styleItem cv vp i) \<notin> set (originalTextsOf [styleItem cv vp i])
                      \<and> drawItem ev tr st (styleItem cv vp i) = Inr st)
   \<and> map TextItem (survivingRuns items) =
       filter (\<lambda>i. i \<noteq> TextMarkedContent \<and> \<not> emptyRun i) items
   \<and> originalTextsOf (map (styleItem cv vp) items) = map str (survivingRuns items)
   \<and> (survivingRuns items = [] \<longrightarrow>
        handlePage ev cfg ctx vp items fonts =
          Inr \<lparr>pageOps = [], pageFonts = fonts, providerCalls = []\<rparr>)"
proof -
  have style: "emptyRun i \<longrightarrow> styleItem cv vp i = Unstyled i
      \<and> strOf (styleItem cv vp i) \<notin> set (originalTextsOf [styleItem cv vp i])
      \<and> drawItem ev tr st (styleItem cv vp i) = Inr st"
    by (cases i) (simp_all add: originalTextsOf_def)
  have none: "survivingRuns items = [] \<longrightarrow>
        handlePage ev cfg ctx vp items fonts =
          Inr \<lparr>pageOps = [], pageFonts = fonts, providerCalls = []\<rparr>"
    by (simp add: handlePage_empty)
  from handlePage_filter [of ev cfg ctx vp items fonts] style
    survivingRuns_as_filter [of items] originalTexts_survivors [of cv vp items] none
  show ?thesis by (intro conjI) assumption+
qed

theorem empty_runs_excluded_witness:
  "emptyRun (TextItem blankRun)
   \<and> styleItem cvLetter vpLetter (TextItem blankRun) = Unstyled (TextItem blankRun)
   \<and> survivingRuns [TextMarkedContent, TextItem blankRun] = []
   \<and> handlePage (envAnswering ''uno'') cfgSpanish (Some cvLetter) vpLetter
        [TextMarkedContent, TextItem blankRun] [Helvetica] =
       Inr \<lparr>pageOps = [], pageFonts = [Helvetica], providerCalls = []\<rparr>"
proof -
  have a: "emptyRun (TextItem blankRun)" by (simp add: run_fields run_trims)
  have b: "survivingRuns [TextMarkedContent, TextItem blankRun] = []"
    by (simp add: run_fields run_trims)
  from a b
    empty_runs_excluded [of "envAnswering ''uno''" cfgSpanish "Some cvLetter" vpLetter
      "[TextMarkedContent, TextItem blankRun]" "[Helvetica]" "TextItem blankRun" cvLetter]
  show ?thesis by blast
qed

end
